theory Spec2Isabelle
  imports Complex_Main "HOL-Library.Word" "HOL-Library.Sublist" "HOL-Library.Log_Nat"
begin

section \<open>JavaScript numbers\<close>

text \<open>
  A TypeScript \<open>number\<close> is an IEEE 754 binary64 value. A finite double is represented by
  the rational it denotes; the two infinities and NaN are separate constructors. The two
  zeros are identified: the operations used by the application (\<open>+\<close>, \<open>*\<close>, \<open>>\<close>,
  \<open>toFixed\<close>) give the same result on \<open>-0\<close> and \<open>+0\<close>.
\<close>

datatype number = Finite rat | PosInf | NegInf | NaN

text \<open>The binary exponent of a positive rational: \<open>2 powi ilog2 a \<le> a < 2 powi (ilog2 a + 1)\<close>.\<close>

definition ilog2 :: "rat \<Rightarrow> int" where
  "ilog2 a = (if 1 \<le> a then bitlen \<lfloor>a\<rfloor> - 1 else - bitlen (\<lceil>1 / a\<rceil> - 1))"

definition round_half_even :: "rat \<Rightarrow> int" where
  "round_half_even r =
     (let f = \<lfloor>r\<rfloor>; d = r - of_int f
      in if d < 1 / 2 then f else if 1 / 2 < d then f + 1
         else if even f then f else f + 1)"

text \<open>
  Rounding of an exact result to binary64, round-to-nearest, ties to even: 53 significant
  bits, the unit in the last place never below \<open>2 powi (- 1074)\<close> (subnormals), overflow to
  an infinity from \<open>2 ^ 1024\<close> on.
\<close>

definition round_double :: "rat \<Rightarrow> number" where
  "round_double x =
     (if x = 0 then Finite 0
      else
        let a = \<bar>x\<bar>;
            q = max (ilog2 a - 52) (- 1074);
            n = round_half_even (a / (2 powi q));
            r = of_int n * (2 powi q)
        in if 2 ^ 1024 \<le> r then (if 0 < x then PosInf else NegInf)
           else Finite (if 0 < x then r else - r))"

text \<open>A decimal literal of the source (\<open>0.1\<close>, \<open>5.99\<close>) or of a JSON row (\<open>8.99\<close>):
  \<open>decimal m k\<close> is the double nearest to \<open>m / 10 ^ k\<close>.\<close>

definition decimal :: "int \<Rightarrow> nat \<Rightarrow> number" where
  "decimal m k = round_double (of_int m / 10 ^ k)"

definition number_of_int :: "int \<Rightarrow> number" where
  "number_of_int i = round_double (of_int i)"

fun js_add :: "number \<Rightarrow> number \<Rightarrow> number" where
  "js_add NaN _ = NaN"
| "js_add _ NaN = NaN"
| "js_add PosInf NegInf = NaN"
| "js_add NegInf PosInf = NaN"
| "js_add PosInf _ = PosInf"
| "js_add _ PosInf = PosInf"
| "js_add NegInf _ = NegInf"
| "js_add _ NegInf = NegInf"
| "js_add (Finite a) (Finite b) = round_double (a + b)"

fun js_mul :: "number \<Rightarrow> number \<Rightarrow> number" where
  "js_mul NaN _ = NaN"
| "js_mul _ NaN = NaN"
| "js_mul (Finite a) (Finite b) = round_double (a * b)"
| "js_mul (Finite a) PosInf = (if a = 0 then NaN else if 0 < a then PosInf else NegInf)"
| "js_mul (Finite a) NegInf = (if a = 0 then NaN else if 0 < a then NegInf else PosInf)"
| "js_mul PosInf (Finite b) = (if b = 0 then NaN else if 0 < b then PosInf else NegInf)"
| "js_mul NegInf (Finite b) = (if b = 0 then NaN else if 0 < b then NegInf else PosInf)"
| "js_mul PosInf PosInf = PosInf"
| "js_mul NegInf NegInf = PosInf"
| "js_mul PosInf NegInf = NegInf"
| "js_mul NegInf PosInf = NegInf"

definition digit_char :: "nat \<Rightarrow> char" where
  "digit_char d = ''0123456789'' ! d"

fun digits :: "nat \<Rightarrow> string" where
  "digits n = (if n < 10 then [digit_char n] else digits (n div 10) @ [digit_char (n mod 10)])"

declare digits.simps [simp del]

text \<open>
  \<open>Number.prototype.toFixed(2)\<close>: for a finite \<open>x\<close> below \<open>10 ^ 21\<close> in magnitude, the
  integer \<open>n\<close> with \<open>n / 100\<close> nearest to \<open>\<bar>x\<bar>\<close> (the larger one on a tie), printed with
  two digits after the point and at least one before it. From \<open>10 ^ 21\<close> on the method
  falls back to \<open>ToString\<close>, whose exponent notation is not modelled: \<open>None\<close>.
\<close>

definition toFixed2 :: "number \<Rightarrow> string option" where
  "toFixed2 x =
     (case x of
        NaN \<Rightarrow> Some ''NaN''
      | PosInf \<Rightarrow> Some ''Infinity''
      | NegInf \<Rightarrow> Some ''-Infinity''
      | Finite r \<Rightarrow>
          if 10 ^ 21 \<le> \<bar>r\<bar> then None
          else
            let n = nat \<lfloor>\<bar>r\<bar> * 100 + 1 / 2\<rfloor>;
                m = digits n;
                m' = replicate (3 - length m) (CHR ''0'') @ m;
                k = length m'
            in Some ((if r < 0 then ''-'' else '''') @ take (k - 2) m' @ ''.'' @ drop (k - 2) m'))"

section \<open>The cart of the menu page\<close>

text \<open>
  The interfaces \<open>MenuItem\<close> and \<open>CartItem extends MenuItem\<close>. The field \<open>id\<close> is written
  \<open>id'\<close>. A quantity is a JavaScript number holding an integer; it is modelled as an
  \<open>int\<close>, which is exact below \<open>2 ^ 53\<close>, far beyond what one click at a time reaches.
\<close>

record menu_item =
  id' :: string
  name :: string
  price :: number
  description :: string
  photo_url :: "string option"
  category_id :: string
  available :: bool

record cart_item = menu_item +
  quantity :: int

type_synonym cart = "cart_item list"

definition addToCart :: "menu_item \<Rightarrow> cart \<Rightarrow> cart" where
  "addToCart item prev =
     (case find (\<lambda>i. id' i = id' item) prev of
        Some existing \<Rightarrow>
          map (\<lambda>i. if id' i = id' item then i\<lparr>quantity := quantity i + 1\<rparr> else i) prev
      | None \<Rightarrow> prev @ [menu_item.extend item (cart_item.fields 1)])"

definition updateQuantity :: "string \<Rightarrow> int \<Rightarrow> cart \<Rightarrow> cart" where
  "updateQuantity itemId delta prev =
     filter (\<lambda>i. 0 < quantity i)
       (map (\<lambda>i. if id' i = itemId then i\<lparr>quantity := quantity i + delta\<rparr> else i) prev)"

definition cartTotal :: "cart \<Rightarrow> number" where
  "cartTotal c =
     foldl (\<lambda>sum item. js_add sum (js_mul (price item) (number_of_int (quantity item))))
       (Finite 0) c"

definition cartCount :: "cart \<Rightarrow> int" where
  "cartCount c = foldl (\<lambda>sum item. sum + quantity item) 0 c"

text \<open>Sequences of cart operations, applied to the empty cart the page starts with.\<close>

datatype cart_op = AddItem menu_item | ChangeQuantity string int

fun apply_op :: "cart \<Rightarrow> cart_op \<Rightarrow> cart" where
  "apply_op c (AddItem item) = addToCart item c"
| "apply_op c (ChangeQuantity itemId delta) = updateQuantity itemId delta c"

definition run_ops :: "cart_op list \<Rightarrow> cart" where
  "run_ops ops = foldl apply_op [] ops"

text \<open>
  The invariant of the data model: at most one line per item id, and positive quantities.
\<close>

definition cart_ok :: "cart \<Rightarrow> bool" where
  "cart_ok c \<longleftrightarrow> distinct (map id' c) \<and> (\<forall>l\<in>set c. 0 < quantity l)"

text \<open>Two rows of the seeded menu, with the prices of the migration, and a sequence of
  additions used as a running example.\<close>

definition spring_rolls :: menu_item where
  "spring_rolls = \<lparr>id' = ''m1'', name = ''Spring Rolls'', price = decimal 899 2,
     description = ''Crispy vegetable spring rolls with sweet chili sauce'',
     photo_url = None, category_id = ''c1'', available = True\<rparr>"

definition chicken_wings :: menu_item where
  "chicken_wings = \<lparr>id' = ''m2'', name = ''Chicken Wings'', price = decimal 1299 2,
     description = ''Buffalo style wings with blue cheese dip'',
     photo_url = None, category_id = ''c1'', available = True\<rparr>"

definition example_ops :: "cart_op list" where
  "example_ops = [AddItem spring_rolls, AddItem chicken_wings, AddItem spring_rolls]"

section \<open>Pricing on the checkout page\<close>

datatype order_type = DineIn | Takeaway | Delivery

text \<open>The four constants computed at the top of the \<open>Checkout\<close> component; \<open>total\<close> is
  written \<open>total'\<close>.\<close>

definition subtotal :: "cart \<Rightarrow> number" where
  "subtotal c =
     foldl (\<lambda>sum item. js_add sum (js_mul (price item) (number_of_int (quantity item))))
       (Finite 0) c"

definition tax :: "cart \<Rightarrow> number" where
  "tax c = js_mul (subtotal c) (decimal 1 1)"

definition deliveryFee :: "order_type \<Rightarrow> number" where
  "deliveryFee orderType = (if orderType = Delivery then decimal 599 2 else Finite 0)"

definition total' :: "cart \<Rightarrow> order_type \<Rightarrow> number" where
  "total' c orderType = js_add (js_add (subtotal c) (tax c)) (deliveryFee orderType)"

text \<open>The cart of the pricing example: two spring rolls and one portion of chicken wings.\<close>

definition example_cart :: cart where
  "example_cart = [menu_item.extend spring_rolls (cart_item.fields 2),
                   menu_item.extend chicken_wings (cart_item.fields 1)]"

section \<open>The data store and its row-level-security policies\<close>

text \<open>
  Identifiers are uuids, kept as strings. Free text typed by the user is a JavaScript
  string, a sequence of UTF-16 code units.
\<close>

type_synonym uuid = string
type_synonym js_string = "16 word list"

text \<open>\<open>String.prototype.trim\<close> strips white space and line terminators at both ends.\<close>

definition is_white_space :: "16 word \<Rightarrow> bool" where
  "is_white_space c \<longleftrightarrow>
     c \<in> {0x9, 0xA, 0xB, 0xC, 0xD, 0x20, 0xA0, 0x1680, 0x2028, 0x2029, 0x202F, 0x205F,
          0x3000, 0xFEFF}
     \<or> (0x2000 \<le> c \<and> c \<le> 0x200A)"

definition trim :: "js_string \<Rightarrow> js_string" where
  "trim s = rev (dropWhile is_white_space (rev (dropWhile is_white_space s)))"

datatype order_status = Pending | Preparing | Ready | InDelivery | Delivered | Cancelled

text \<open>
  The tables \<open>orders\<close>, \<open>ordered_items\<close> and \<open>staff\<close> of the first migration. A nullable
  column is an \<open>option\<close>, except \<open>tax\<close>, \<open>tip\<close> and \<open>delivery_fee\<close>, which have a
  default and always hold a number here. The column \<open>orders.id\<close> is \<open>row_id\<close>; \<open>tax\<close>,
  \<open>total\<close> and \<open>notes\<close> of \<open>orders\<close> are \<open>order_tax\<close>, \<open>order_total\<close> and \<open>order_notes\<close>;
  \<open>ordered_items.quantity\<close> is \<open>item_quantity\<close>; the columns of \<open>staff\<close> carry the alias
  \<open>s\<close> of the policies.
  Left out: the timestamps, \<open>ordered_items.id\<close> and \<open>ordered_items.notes\<close>, the other
  columns of \<open>staff\<close>, and the conversion of a number to \<open>decimal(10,2)\<close> by the store,
  so a row holds the numbers as the client sent them.
\<close>

record order_row =
  row_id :: uuid
  user_id :: "uuid option"
  branch_id :: "uuid option"
  order_type :: order_type
  status :: "order_status option"
  order_tax :: number
  tip :: number
  delivery_fee :: number
  order_total :: number
  delivery_address :: "js_string option"
  order_notes :: "js_string option"

record ordered_item =
  order_id :: "uuid option"
  menu_id :: "uuid option"
  item_quantity :: int
  price_each :: number

record staff_row =
  s_user_id :: "uuid option"
  s_branch_id :: "uuid option"

record store =
  profiles :: "uuid list"
  branches :: "uuid list"
  menu :: "menu_item list"
  staff :: "staff_row list"
  orders :: "order_row list"
  ordered_items :: "ordered_item list"

datatype db_error = RlsViolation | UniqueViolation | ForeignKeyViolation | CheckViolation

text \<open>
  \<open>EXISTS (SELECT 1 FROM staff s WHERE s.user_id = auth.uid() AND s.branch_id =
  orders.branch_id)\<close>. A comparison with NULL is not true in SQL.
\<close>

definition staff_of_branch :: "store \<Rightarrow> uuid option \<Rightarrow> uuid option \<Rightarrow> bool" where
  "staff_of_branch st uid b \<longleftrightarrow>
     (\<exists>s\<in>set (staff st). uid \<noteq> None \<and> s_user_id s = uid \<and> b \<noteq> None \<and> s_branch_id s = b)"

text \<open>The policies on \<open>orders\<close>: permissive policies of one command are joined by OR.\<close>

definition orders_select_using :: "store \<Rightarrow> uuid option \<Rightarrow> order_row \<Rightarrow> bool" where
  "orders_select_using st uid r \<longleftrightarrow>
     (uid \<noteq> None \<and> user_id r = uid) \<or> staff_of_branch st uid (branch_id r)"

definition orders_insert_check :: "uuid option \<Rightarrow> order_row \<Rightarrow> bool" where
  "orders_insert_check uid r \<longleftrightarrow> uid \<noteq> None \<and> user_id r = uid"

definition orders_update_using :: "store \<Rightarrow> uuid option \<Rightarrow> order_row \<Rightarrow> bool" where
  "orders_update_using st uid r \<longleftrightarrow>
     (uid \<noteq> None \<and> user_id r = uid \<and> status r = Some Pending)
     \<or> staff_of_branch st uid (branch_id r)"

text \<open>
  Neither UPDATE policy has a WITH CHECK clause, so PostgreSQL applies the USING
  expressions to the new row as well.
\<close>

definition orders_update_check :: "store \<Rightarrow> uuid option \<Rightarrow> order_row \<Rightarrow> bool" where
  "orders_update_check st uid r \<longleftrightarrow> orders_update_using st uid r"

text \<open>No policy on \<open>orders\<close> is FOR DELETE or FOR ALL: with row-level security enabled, no
  row qualifies for a DELETE.\<close>

definition orders_delete_using :: "store \<Rightarrow> uuid option \<Rightarrow> order_row \<Rightarrow> bool" where
  "orders_delete_using st uid r \<longleftrightarrow> False"

text \<open>The policies on \<open>ordered_items\<close>.\<close>

definition items_select_using :: "store \<Rightarrow> uuid option \<Rightarrow> ordered_item \<Rightarrow> bool" where
  "items_select_using st uid i \<longleftrightarrow>
     (\<exists>r\<in>set (orders st). Some (row_id r) = order_id i \<and>
        ((uid \<noteq> None \<and> user_id r = uid) \<or> staff_of_branch st uid (branch_id r)))"

definition items_insert_check :: "store \<Rightarrow> uuid option \<Rightarrow> ordered_item \<Rightarrow> bool" where
  "items_insert_check st uid i \<longleftrightarrow>
     (\<exists>r\<in>set (orders st). Some (row_id r) = order_id i \<and> uid \<noteq> None \<and> user_id r = uid)"

text \<open>The constraints of the schema: primary key of \<open>orders\<close>, foreign keys, and the CHECK
  on \<open>ordered_items.quantity\<close>. A NULL reference satisfies a foreign key.\<close>

definition references :: "uuid option \<Rightarrow> uuid list \<Rightarrow> bool" where
  "references v ids \<longleftrightarrow> (case v of None \<Rightarrow> True | Some x \<Rightarrow> x \<in> set ids)"

definition order_fk_ok :: "store \<Rightarrow> order_row \<Rightarrow> bool" where
  "order_fk_ok st r \<longleftrightarrow> references (user_id r) (profiles st) \<and> references (branch_id r) (branches st)"

definition item_fk_ok :: "store \<Rightarrow> ordered_item \<Rightarrow> bool" where
  "item_fk_ok st i \<longleftrightarrow>
     references (order_id i) (map row_id (orders st)) \<and> references (menu_id i) (map id' (menu st))"

definition constraints_ok :: "store \<Rightarrow> bool" where
  "constraints_ok st \<longleftrightarrow>
     distinct (map row_id (orders st))
     \<and> list_all (order_fk_ok st) (orders st)
     \<and> list_all (item_fk_ok st) (ordered_items st)
     \<and> list_all (\<lambda>i. 0 < item_quantity i) (ordered_items st)"

text \<open>
  \<open>INSERT INTO orders\<close> of one row, by the user \<open>uid\<close>. A branch id that is no uuid,
  such as the empty string, is the id of no branch and is refused as a dangling reference
  is.
\<close>

definition insert_order :: "store \<Rightarrow> uuid option \<Rightarrow> order_row \<Rightarrow> db_error + store" where
  "insert_order st uid r =
     (if \<not> orders_insert_check uid r then Inl RlsViolation
      else if row_id r \<in> set (map row_id (orders st)) then Inl UniqueViolation
      else if \<not> order_fk_ok st r then Inl ForeignKeyViolation
      else Inr (st\<lparr>orders := orders st @ [r]\<rparr>))"

text \<open>\<open>INSERT INTO ordered_items\<close> of several rows in one statement: all or none.\<close>

definition insert_ordered_items ::
  "store \<Rightarrow> uuid option \<Rightarrow> ordered_item list \<Rightarrow> db_error + store" where
  "insert_ordered_items st uid items =
     (if \<not> list_all (items_insert_check st uid) items then Inl RlsViolation
      else if \<not> list_all (\<lambda>i. 0 < item_quantity i) items then Inl CheckViolation
      else if \<not> list_all (item_fk_ok st) items then Inl ForeignKeyViolation
      else Inr (st\<lparr>ordered_items := ordered_items st @ items\<rparr>))"

text \<open>
  \<open>UPDATE orders SET ... WHERE ...\<close> by the user \<open>uid\<close>: \<open>filt\<close> is the WHERE clause and
  \<open>patch\<close> the SET clause. A row the USING expressions do not admit is skipped silently; a
  new row the check rejects, or one that breaks a constraint, aborts the statement.
\<close>

definition update_orders ::
  "store \<Rightarrow> uuid option \<Rightarrow> (order_row \<Rightarrow> bool) \<Rightarrow> (order_row \<Rightarrow> order_row) \<Rightarrow> db_error + store" where
  "update_orders st uid filt patch =
     (let hit = (\<lambda>r. filt r \<and> orders_select_using st uid r \<and> orders_update_using st uid r);
          st' = st\<lparr>orders := map (\<lambda>r. if hit r then patch r else r) (orders st)\<rparr>
      in if \<not> list_all (\<lambda>r. \<not> hit r \<or> orders_update_check st uid (patch r)) (orders st)
           then Inl RlsViolation
         else if \<not> distinct (map row_id (orders st')) then Inl UniqueViolation
         else if \<not> (list_all (order_fk_ok st') (orders st') \<and>
                    list_all (item_fk_ok st') (ordered_items st'))
           then Inl ForeignKeyViolation
         else Inr st')"

text \<open>\<open>DELETE FROM orders WHERE ...\<close>, with the cascade to \<open>ordered_items\<close>.\<close>

definition delete_orders :: "store \<Rightarrow> uuid option \<Rightarrow> (order_row \<Rightarrow> bool) \<Rightarrow> store" where
  "delete_orders st uid filt =
     (let gone = (\<lambda>r. filt r \<and> orders_select_using st uid r \<and> orders_delete_using st uid r);
          dead = map row_id (filter gone (orders st))
      in st\<lparr>orders := filter (\<lambda>r. \<not> gone r) (orders st),
            ordered_items :=
              filter (\<lambda>i. case order_id i of None \<Rightarrow> True | Some x \<Rightarrow> x \<notin> set dead)
                (ordered_items st)\<rparr>)"

text \<open>
  No policy on \<open>ordered_items\<close> is FOR UPDATE, FOR DELETE or FOR ALL: no row qualifies for
  either command, for any user.
\<close>

definition items_update_using :: "store \<Rightarrow> uuid option \<Rightarrow> ordered_item \<Rightarrow> bool" where
  "items_update_using st uid i \<longleftrightarrow> False"

definition items_delete_using :: "store \<Rightarrow> uuid option \<Rightarrow> ordered_item \<Rightarrow> bool" where
  "items_delete_using st uid i \<longleftrightarrow> False"

text \<open>\<open>UPDATE ordered_items SET ... WHERE ...\<close> and \<open>DELETE FROM ordered_items WHERE ...\<close>.\<close>

definition update_ordered_items ::
  "store \<Rightarrow> uuid option \<Rightarrow> (ordered_item \<Rightarrow> bool) \<Rightarrow> (ordered_item \<Rightarrow> ordered_item)
     \<Rightarrow> db_error + store" where
  "update_ordered_items st uid filt patch =
     (let hit = (\<lambda>i. filt i \<and> items_select_using st uid i \<and> items_update_using st uid i);
          st' = st\<lparr>ordered_items := map (\<lambda>i. if hit i then patch i else i) (ordered_items st)\<rparr>
      in if \<not> list_all (\<lambda>i. 0 < item_quantity i) (ordered_items st') then Inl CheckViolation
         else if \<not> list_all (item_fk_ok st') (ordered_items st') then Inl ForeignKeyViolation
         else Inr st')"

definition delete_ordered_items :: "store \<Rightarrow> uuid option \<Rightarrow> (ordered_item \<Rightarrow> bool) \<Rightarrow> store" where
  "delete_ordered_items st uid filt =
     st\<lparr>ordered_items :=
          filter (\<lambda>i. \<not> (filt i \<and> items_select_using st uid i \<and> items_delete_using st uid i))
            (ordered_items st)\<rparr>"

text \<open>The state of the store after a statement: an error rolls the statement back.\<close>

definition after :: "store \<Rightarrow> db_error + store \<Rightarrow> store" where
  "after st res = (case res of Inl e \<Rightarrow> st | Inr st' \<Rightarrow> st')"

text \<open>Reading the items of an order, as the embedded select of the staff page does.\<close>

definition select_ordered_items :: "store \<Rightarrow> uuid option \<Rightarrow> uuid \<Rightarrow> ordered_item list" where
  "select_ordered_items st uid oid =
     filter (\<lambda>i. order_id i = Some oid \<and> items_select_using st uid i) (ordered_items st)"

text \<open>A change of catalog prices: the \<open>price\<close> column of the rows of \<open>menu\<close> with the given id.\<close>

definition set_menu_price :: "uuid \<Rightarrow> number \<Rightarrow> store \<Rightarrow> store" where
  "set_menu_price mid p st =
     st\<lparr>menu := map (\<lambda>m. if id' m = mid then m\<lparr>price := p\<rparr> else m) (menu st)\<rparr>"

section \<open>The handlers of the pages\<close>

text \<open>\<open>handleCheckout\<close> of the menu page: a toast, or the navigation to \<open>/checkout\<close> with the
  cart and the branch as location state.\<close>

record location_state =
  ls_cart :: cart
  ls_branchId :: string

datatype menu_outcome = ToastSelectBranch | ToastCartEmpty | NavigateCheckout location_state

definition handleCheckout :: "string \<Rightarrow> cart \<Rightarrow> menu_outcome" where
  "handleCheckout selectedBranch c =
     (if selectedBranch = '''' then ToastSelectBranch
      else if length c = 0 then ToastCartEmpty
      else NavigateCheckout \<lparr>ls_cart = c, ls_branchId = selectedBranch\<rparr>)"

text \<open>
  The state of the \<open>Checkout\<close> component: the cart and the branch come from
  \<open>location.state || { cart: [], branchId: "" }\<close>, the rest from its inputs.
\<close>

record checkout =
  cart :: cart
  branchId :: string
  orderType :: order_type
  deliveryAddress :: js_string
  orderNotes :: js_string

definition open_checkout ::
  "location_state option \<Rightarrow> order_type \<Rightarrow> js_string \<Rightarrow> js_string \<Rightarrow> checkout" where
  "open_checkout ls ot addr ns =
     (case ls of
        None \<Rightarrow> \<lparr>cart = [], branchId = '''', orderType = ot, deliveryAddress = addr, orderNotes = ns\<rparr>
      | Some l \<Rightarrow> \<lparr>cart = ls_cart l, branchId = ls_branchId l, orderType = ot,
                   deliveryAddress = addr, orderNotes = ns\<rparr>)"

datatype place_outcome = ToastEnterAddress | NavigateAuth | OrderPlaced | ToastError db_error

text \<open>
  \<open>handlePlaceOrder\<close>: the session is the signed-in user if any, \<open>new_id\<close> is the value
  \<open>gen_random_uuid()\<close> gives to the new row. The two inserts are two requests. \<open>tip\<close> takes
  its column default.
\<close>

definition new_order :: "checkout \<Rightarrow> uuid \<Rightarrow> uuid \<Rightarrow> order_row" where
  "new_order cs uid new_id =
     \<lparr>row_id = new_id,
      user_id = Some uid,
      branch_id = Some (branchId cs),
      order_type = orderType cs,
      status = Some Pending,
      order_tax = tax (cart cs),
      tip = Finite 0,
      delivery_fee = deliveryFee (orderType cs),
      order_total = total' (cart cs) (orderType cs),
      delivery_address = (if orderType cs = Delivery then Some (deliveryAddress cs) else None),
      order_notes = (if orderNotes cs = [] then None else Some (orderNotes cs))\<rparr>"

definition orderItems :: "cart \<Rightarrow> uuid \<Rightarrow> ordered_item list" where
  "orderItems c oid =
     map (\<lambda>item. \<lparr>order_id = Some oid, menu_id = Some (id' item),
                   item_quantity = quantity item, price_each = price item\<rparr>) c"

definition handlePlaceOrder ::
  "checkout \<Rightarrow> uuid option \<Rightarrow> uuid \<Rightarrow> store \<Rightarrow> place_outcome \<times> store" where
  "handlePlaceOrder cs session new_id st =
     (if orderType cs = Delivery \<and> trim (deliveryAddress cs) = [] then (ToastEnterAddress, st)
      else
        case session of
          None \<Rightarrow> (NavigateAuth, st)
        | Some uid \<Rightarrow>
            (case insert_order st (Some uid) (new_order cs uid new_id) of
               Inl orderError \<Rightarrow> (ToastError orderError, st)
             | Inr st1 \<Rightarrow>
                 (case insert_ordered_items st1 (Some uid) (orderItems (cart cs) new_id) of
                    Inl itemsError \<Rightarrow> (ToastError itemsError, st1)
                  | Inr st2 \<Rightarrow> (OrderPlaced, st2))))"

text \<open>The staff page: the options its selector offers for an order, and \<open>updateOrderStatus\<close>.\<close>

definition status_options :: "order_row \<Rightarrow> order_status list" where
  "status_options order =
     [Pending, Preparing, Ready]
     @ (if order_type order = Delivery then [InDelivery] else [])
     @ [Delivered, Cancelled]"

datatype staff_outcome = ToastStatusUpdated | ToastStaffError db_error

definition updateOrderStatus ::
  "store \<Rightarrow> uuid option \<Rightarrow> uuid \<Rightarrow> order_status \<Rightarrow> staff_outcome \<times> store" where
  "updateOrderStatus st uid orderId newStatus =
     (case update_orders st uid (\<lambda>r. row_id r = orderId) (\<lambda>r. r\<lparr>status := Some newStatus\<rparr>) of
        Inl error \<Rightarrow> (ToastStaffError error, st)
      | Inr st' \<Rightarrow> (ToastStatusUpdated, st'))"

text \<open>
  The location states with which the checkout page can be opened: none, when the page is
  opened by its URL, or the one \<open>handleCheckout\<close> navigates with. No other navigation to
  \<open>/checkout\<close> exists.
\<close>

definition navigated :: "location_state option \<Rightarrow> bool" where
  "navigated ls \<longleftrightarrow>
     (case ls of
        None \<Rightarrow> True
      | Some l \<Rightarrow> handleCheckout (ls_branchId l) (ls_cart l) = NavigateCheckout l)"

section \<open>A small store for the examples\<close>

text \<open>One branch, a customer \<open>u1\<close>, a member of staff \<open>u2\<close> of that branch, the two menu rows.\<close>

definition example_store :: store where
  "example_store =
     \<lparr>profiles = [''u1'', ''u2''], branches = [''b1''], menu = [spring_rolls, chicken_wings],
      staff = [\<lparr>s_user_id = Some ''u2'', s_branch_id = Some ''b1''\<rparr>],
      orders = [], ordered_items = []\<rparr>"

definition example_checkout :: "order_type \<Rightarrow> js_string \<Rightarrow> checkout" where
  "example_checkout ot addr =
     open_checkout (Some \<lparr>ls_cart = example_cart, ls_branchId = ''b1''\<rparr>) ot addr []"

text \<open>The same store after the chicken wings were taken off the menu.\<close>

definition reduced_store :: store where
  "reduced_store = example_store\<lparr>menu := [spring_rolls]\<rparr>"

text \<open>The store holding one order of \<open>u1\<close>, to dine in, with its two lines.\<close>

definition example_order :: order_row where
  "example_order = new_order (example_checkout DineIn []) ''u1'' ''o1''"

definition ordered_store :: store where
  "ordered_store =
     example_store\<lparr>orders := [example_order], ordered_items := orderItems example_cart ''o1''\<rparr>"

text \<open>The same store once the order is being prepared.\<close>

definition preparing_store :: store where
  "preparing_store = ordered_store\<lparr>orders := [example_order\<lparr>status := Some Preparing\<rparr>]\<rparr>"

text \<open>A further line for the order of the example: five spring rolls at one cent each.\<close>

definition extra_line :: ordered_item where
  "extra_line = \<lparr>order_id = Some ''o1'', menu_id = Some ''m1'', item_quantity = 5,
     price_each = decimal 1 2\<rparr>"

section \<open>Properties of the cart\<close>

lemma find_None_iff_id: "find (\<lambda>i. id' i = x) c = None \<longleftrightarrow> x \<notin> id' ` set c"
  by (auto simp: find_None_iff)

lemma addToCart_present:
  "x \<in> id' ` set c \<Longrightarrow> id' item = x \<Longrightarrow>
   addToCart item c = map (\<lambda>i. if id' i = x then i\<lparr>quantity := quantity i + 1\<rparr> else i) c"
  using find_None_iff_id[of x c] by (auto simp: addToCart_def split: option.splits)

lemma addToCart_absent:
  "id' item \<notin> id' ` set c \<Longrightarrow> addToCart item c = c @ [menu_item.extend item (cart_item.fields 1)]"
  using find_None_iff_id[of "id' item" c] by (auto simp: addToCart_def split: option.splits)

lemma id_extend [simp]: "id' (menu_item.extend item e) = id' item"
  by (simp add: menu_item.defs)

lemma quantity_extend [simp]: "quantity (menu_item.extend item (cart_item.fields q)) = q"
  by (simp add: menu_item.defs cart_item.defs)

lemma id_incr_comp [simp]:
  "id' \<circ> (\<lambda>i. if id' i = x then i\<lparr>quantity := quantity i + d\<rparr> else i) = id'"
  by (auto simp: fun_eq_iff)

lemma cart_ok_addToCart: "cart_ok c \<Longrightarrow> cart_ok (addToCart item c)"
proof (cases "id' item \<in> id' ` set c")
  case True
  assume "cart_ok c"
  then show ?thesis using addToCart_present[OF True refl]
    by (auto simp: cart_ok_def)
next
  case False
  assume "cart_ok c"
  then show ?thesis using addToCart_absent[OF False] False
    by (auto simp: cart_ok_def)
qed

lemma map_id_filter_subseq: "subseq (map id' (filter P c)) (map id' c)"
  by (induction c) auto

lemma cart_ok_updateQuantity: "cart_ok c \<Longrightarrow> cart_ok (updateQuantity x d c)"
proof -
  assume ok: "cart_ok c"
  let ?m = "map (\<lambda>i. if id' i = x then i\<lparr>quantity := quantity i + d\<rparr> else i) c"
  have "distinct (map id' ?m)" using ok by (simp add: cart_ok_def)
  then have "distinct (map id' (filter (\<lambda>i. 0 < quantity i) ?m))"
    by (rule distinct_map_filter)
  then show ?thesis by (auto simp: cart_ok_def updateQuantity_def)
qed

lemma cart_ok_run: "cart_ok c \<Longrightarrow> cart_ok (foldl apply_op c ops)"
proof (induction ops arbitrary: c)
  case Nil then show ?case by simp
next
  case (Cons a ops)
  then show ?case by (cases a) (auto simp: cart_ok_addToCart cart_ok_updateQuantity)
qed

lemma foldl_count: "foldl (\<lambda>sum item. sum + quantity item) a c = a + sum_list (map quantity c)"
  by (induction c arbitrary: a) auto

lemma cartCount_sum: "cartCount c = sum_list (map quantity c)"
  by (simp add: cartCount_def foldl_count)

lemma removed_line:
  assumes "distinct (map id' c)" "l \<in> set c" "id' l = x" "quantity l + d \<le> 0"
  shows "x \<notin> id' ` set (updateQuantity x d c)"
proof
  let ?f = "\<lambda>i. if id' i = x then i\<lparr>quantity := quantity i + d\<rparr> else i"
  assume "x \<in> id' ` set (updateQuantity x d c)"
  then obtain y where y: "y \<in> set (updateQuantity x d c)" "id' y = x"
    by (rule imageE) simp
  from y(1) have ym: "y \<in> ?f ` set c" and yq: "0 < quantity y"
    unfolding updateQuantity_def by simp_all
  from ym obtain k where k0: "k \<in> set c" "y = ?f k"
    by (rule imageE)
  from k0 y(2) yq have k: "k \<in> set c" "id' (?f k) = x" "0 < quantity (?f k)"
    by simp_all
  from k(2) have kx: "id' k = x" by (simp split: if_splits)
  from assms(1) have "inj_on id' (set c)" by (simp add: distinct_map)
  with k(1) kx assms(2,3) have "k = l" by (auto dest: inj_onD)
  with k(3) kx assms(4) show False by simp
qed

lemma extend_incr:
  "(menu_item.extend item (cart_item.fields q))\<lparr>quantity := q'\<rparr> = menu_item.extend item (cart_item.fields q')"
  by (simp add: menu_item.defs cart_item.defs)

lemma filter_other_incr:
  "filter (\<lambda>l. id' l \<noteq> x) (map (\<lambda>i. if id' i = x then i\<lparr>quantity := quantity i + d\<rparr> else i) c)
   = filter (\<lambda>l. id' l \<noteq> x) c"
  by (induction c) auto

lemma filter_same_absent: "x \<notin> id' ` set c \<Longrightarrow> filter (\<lambda>l. id' l = x) c = []"
  by (induction c) auto

lemma incr_absent:
  "x \<notin> id' ` set c \<Longrightarrow> map (\<lambda>i. if id' i = x then i\<lparr>quantity := quantity i + d\<rparr> else i) c = c"
  by (induction c) auto

lemma addToCart_twice:
  assumes "id' item \<notin> id' ` set c"
  shows "addToCart item (addToCart item c) = c @ [menu_item.extend item (cart_item.fields 2)]"
proof -
  let ?e = "menu_item.extend item (cart_item.fields 1)"
  have 1: "addToCart item c = c @ [?e]" using assms by (rule addToCart_absent)
  have "id' item \<in> id' ` set (c @ [?e])" by simp
  then have "addToCart item (c @ [?e]) =
     map (\<lambda>i. if id' i = id' item then i\<lparr>quantity := quantity i + 1\<rparr> else i) (c @ [?e])"
    by (rule addToCart_present) simp
  also have "\<dots> = c @ [?e\<lparr>quantity := 1 + 1\<rparr>]"
    using incr_absent[OF assms] by simp
  finally show ?thesis using 1 by (simp add: extend_incr)
qed

text \<open>
  Claim C2. For every cart and every menu item, \<open>addToCart\<close> increments by one the quantity
  of the line whose id is the item's when there is one, and appends no line; otherwise it
  appends a new line of quantity one. Hence adding an item twice to a cart that does not
  hold it gives exactly one line for it, of quantity two, and one more line in all.
\<close>
theorem addToCart_consolidates:
  "(if id' item \<in> id' ` set c
    then length (addToCart item c) = length c \<and>
         (\<forall>k<length c. addToCart item c ! k =
            (if id' (c ! k) = id' item then (c ! k)\<lparr>quantity := quantity (c ! k) + 1\<rparr> else c ! k))
    else addToCart item c = c @ [menu_item.extend item (cart_item.fields 1)])
   \<and> (id' item \<notin> id' ` set c \<longrightarrow>
        filter (\<lambda>l. id' l = id' item) (addToCart item (addToCart item c))
          = [menu_item.extend item (cart_item.fields 2)]
        \<and> length (addToCart item (addToCart item c)) = length c + 1)"
proof (cases "id' item \<in> id' ` set c")
  case True
  then show ?thesis using addToCart_present[OF True refl] by simp
next
  case False
  then show ?thesis
    using addToCart_absent[OF False] addToCart_twice[OF False] filter_same_absent[OF False]
    by simp
qed

text \<open>The consolidation at a concrete cart: spring rolls added twice after chicken wings.\<close>
theorem addToCart_consolidates_witness:
  "id' spring_rolls \<notin> id' ` set (addToCart chicken_wings [])
   \<and> addToCart spring_rolls (addToCart spring_rolls (addToCart chicken_wings []))
       = [menu_item.extend chicken_wings (cart_item.fields 1),
          menu_item.extend spring_rolls (cart_item.fields 2)]"
proof -
  have c: "addToCart chicken_wings [] = [menu_item.extend chicken_wings (cart_item.fields 1)]"
    by (simp add: addToCart_def)
  have a: "id' spring_rolls \<notin> id' ` set (addToCart chicken_wings [])"
    unfolding c by (simp add: spring_rolls_def chicken_wings_def)
  have t: "addToCart spring_rolls (addToCart spring_rolls (addToCart chicken_wings []))
       = [menu_item.extend chicken_wings (cart_item.fields 1),
          menu_item.extend spring_rolls (cart_item.fields 2)]"
    by (simp add: addToCart_def spring_rolls_def chicken_wings_def menu_item.defs cart_item.defs)
  from addToCart_consolidates[of spring_rolls "addToCart chicken_wings []"] a t
  show ?thesis by simp
qed

lemma run_ops_snoc: "run_ops (ops @ [a]) = apply_op (run_ops ops) a"
  by (simp add: run_ops_def)

lemma cart_ok_run_ops: "cart_ok (run_ops ops)"
  unfolding run_ops_def by (rule cart_ok_run) (simp add: cart_ok_def)

lemma sum_quantity_nonneg: "\<forall>l\<in>set c. 0 < quantity l \<Longrightarrow> 0 \<le> sum_list (map quantity c)"
  by (induction c) auto

text \<open>
  Claim C3. After every finite sequence of \<open>addToCart\<close> and \<open>updateQuantity\<close> calls on the
  empty cart, \<open>cartCount\<close> is the sum of the quantities of the lines and is not negative,
  every line has a positive quantity, and a further \<open>updateQuantity\<close> that brings the
  quantity of a line to zero or below leaves no line with that id.
\<close>
theorem cart_sequences:
  "cartCount (run_ops ops) = sum_list (map quantity (run_ops ops))
   \<and> 0 \<le> cartCount (run_ops ops)
   \<and> (\<forall>l\<in>set (run_ops ops). 0 < quantity l)
   \<and> (\<forall>l\<in>set (run_ops ops). \<forall>delta. quantity l + delta \<le> 0 \<longrightarrow>
         id' l \<notin> id' ` set (run_ops (ops @ [ChangeQuantity (id' l) delta])))"
proof -
  have ok: "cart_ok (run_ops ops)" by (rule cart_ok_run_ops)
  then have pos: "\<forall>l\<in>set (run_ops ops). 0 < quantity l" by (simp add: cart_ok_def)
  then have nn: "0 \<le> sum_list (map quantity (run_ops ops))" by (rule sum_quantity_nonneg)
  have rm: "id' l \<notin> id' ` set (run_ops (ops @ [ChangeQuantity (id' l) delta]))"
    if "l \<in> set (run_ops ops)" "quantity l + delta \<le> 0" for l delta
    using removed_line[of "run_ops ops" l "id' l" delta] ok that
    by (simp add: run_ops_snoc cart_ok_def)
  from pos nn rm show ?thesis by (simp add: cartCount_sum)
qed

lemma run_example_ops:
  "run_ops example_ops = [menu_item.extend spring_rolls (cart_item.fields 2),
                          menu_item.extend chicken_wings (cart_item.fields 1)]"
  by (simp add: run_ops_def example_ops_def addToCart_def spring_rolls_def chicken_wings_def
      menu_item.defs cart_item.defs)

text \<open>The sequence spring rolls, chicken wings, spring rolls, then two spring rolls fewer.\<close>
theorem cart_sequences_witness:
  "menu_item.extend spring_rolls (cart_item.fields 2) \<in> set (run_ops example_ops)
   \<and> (2::int) + (- 2) \<le> 0
   \<and> cartCount (run_ops example_ops) = 3
   \<and> ''m1'' \<notin> id' ` set (run_ops (example_ops @ [ChangeQuantity ''m1'' (- 2)]))"
proof -
  let ?l = "menu_item.extend spring_rolls (cart_item.fields 2)"
  have m: "?l \<in> set (run_ops example_ops)" by (simp add: run_example_ops)
  have i: "id' ?l = ''m1''" by (simp add: spring_rolls_def)
  have q: "quantity ?l + (- 2) \<le> 0" by simp
  have s: "sum_list (map quantity (run_ops example_ops)) = 3" by (simp add: run_example_ops)
  note t = cart_sequences[of example_ops]
  from t s have c: "cartCount (run_ops example_ops) = 3" by simp
  from t have "\<forall>l\<in>set (run_ops example_ops). \<forall>delta. quantity l + delta \<le> 0 \<longrightarrow>
         id' l \<notin> id' ` set (run_ops (example_ops @ [ChangeQuantity (id' l) delta]))"
    by (elim conjE)
  with m q have "id' ?l \<notin> id' ` set (run_ops (example_ops @ [ChangeQuantity (id' ?l) (- 2)]))"
    by blast
  with m c i show ?thesis by simp
qed

lemma filter_other_addToCart:
  "filter (\<lambda>l. id' l \<noteq> id' item) (addToCart item c) = filter (\<lambda>l. id' l \<noteq> id' item) c"
proof (cases "id' item \<in> id' ` set c")
  case True
  show ?thesis unfolding addToCart_present[OF True refl] by (rule filter_other_incr)
next
  case False
  show ?thesis unfolding addToCart_absent[OF False] by simp
qed

lemma prefix_ids_addToCart: "prefix (map id' c) (map id' (addToCart item c))"
proof (cases "id' item \<in> id' ` set c")
  case True
  show ?thesis unfolding addToCart_present[OF True refl] by simp
next
  case False
  show ?thesis unfolding addToCart_absent[OF False] by simp
qed

lemma subseq_ids_updateQuantity: "subseq (map id' (updateQuantity x d c)) (map id' c)"
proof -
  let ?m = "map (\<lambda>i. if id' i = x then i\<lparr>quantity := quantity i + d\<rparr> else i) c"
  have "subseq (map id' (filter (\<lambda>i. 0 < quantity i) ?m)) (map id' ?m)"
    by (rule map_id_filter_subseq)
  then show ?thesis by (simp add: updateQuantity_def)
qed

lemma filter_other_updateQuantity:
  "filter (\<lambda>l. id' l \<noteq> x) (updateQuantity x d c) = filter (\<lambda>l. id' l \<noteq> x \<and> 0 < quantity l) c"
  unfolding updateQuantity_def by (induction c) auto

lemma filter_positive_cart:
  "\<forall>l\<in>set c. 0 < quantity l \<Longrightarrow>
   filter (\<lambda>l. id' l \<noteq> x \<and> 0 < quantity l) c = filter (\<lambda>l. id' l \<noteq> x) c"
  by (rule filter_cong) auto

text \<open>
  Claim C10. \<open>addToCart\<close> and \<open>updateQuantity\<close> touch only the lines with the given id.
  The lines of \<open>addToCart item c\<close> whose id differs from the item's are those of \<open>c\<close>, in
  the same order, and the ids of \<open>c\<close> are a prefix of the ids of the result. The ids
  after \<open>updateQuantity\<close> are a subsequence of the ids before, so no line is added and
  the order is kept; the lines with another id that it keeps are unchanged, and in a cart
  whose quantities are all positive (every cart the page can hold) it keeps all of them.
\<close>
theorem cart_ops_frame:
  "filter (\<lambda>l. id' l \<noteq> id' item) (addToCart item c) = filter (\<lambda>l. id' l \<noteq> id' item) c
   \<and> prefix (map id' c) (map id' (addToCart item c))
   \<and> subseq (map id' (updateQuantity itemId delta c)) (map id' c)
   \<and> filter (\<lambda>l. id' l \<noteq> itemId) (updateQuantity itemId delta c)
        = filter (\<lambda>l. id' l \<noteq> itemId \<and> 0 < quantity l) c
   \<and> ((\<forall>l\<in>set c. 0 < quantity l) \<longrightarrow>
        filter (\<lambda>l. id' l \<noteq> itemId) (updateQuantity itemId delta c)
          = filter (\<lambda>l. id' l \<noteq> itemId) c)"
  using filter_other_addToCart[of item c] prefix_ids_addToCart[of c item]
    subseq_ids_updateQuantity[of itemId delta c] filter_other_updateQuantity[of itemId delta c]
    filter_positive_cart[of c itemId]
  by simp

text \<open>The frame of \<open>updateQuantity\<close> at the cart of the example sequence.\<close>
theorem cart_ops_frame_witness:
  "cart_ok (run_ops example_ops)
   \<and> filter (\<lambda>l. id' l \<noteq> ''m1'') (updateQuantity ''m1'' (- 2) (run_ops example_ops))
       = [menu_item.extend chicken_wings (cart_item.fields 1)]"
proof -
  have p: "\<forall>l\<in>set (run_ops example_ops). 0 < quantity l" by (simp add: run_example_ops)
  have f: "filter (\<lambda>l. id' l \<noteq> ''m1'') (run_ops example_ops)
             = [menu_item.extend chicken_wings (cart_item.fields 1)]"
    by (simp add: run_example_ops spring_rolls_def chicken_wings_def)
  note t = cart_ops_frame[of spring_rolls "run_ops example_ops" "''m1''" "- 2"]
  from t have "(\<forall>l\<in>set (run_ops example_ops). 0 < quantity l) \<longrightarrow>
        filter (\<lambda>l. id' l \<noteq> ''m1'') (updateQuantity ''m1'' (- 2) (run_ops example_ops))
          = filter (\<lambda>l. id' l \<noteq> ''m1'') (run_ops example_ops)"
    by (elim conjE)
  with p f show ?thesis by (simp add: cart_ok_run_ops)
qed

section \<open>Properties of the numbers\<close>

text \<open>The exponent computed by \<open>ilog2\<close> is the binary exponent of its argument.\<close>

lemma bitlen_ge_1: "0 < m \<Longrightarrow> 1 \<le> bitlen m"
  using bitlen_eq_zero_iff[of m] bitlen_nonneg[of m] by linarith

lemma powi_nonneg_eq: "0 \<le> e \<Longrightarrow> (2::rat) powi e = 2 ^ nat e"
  by (simp add: power_int_def)

lemma powi_neg_eq: "0 \<le> k \<Longrightarrow> (2::rat) powi (- k) = 1 / 2 ^ nat k"
  by (cases "k = 0") (simp_all add: power_int_def field_simps)

lemma ilog2_bounds:
  assumes "0 < a"
  shows "2 powi ilog2 a \<le> a" and "a < 2 powi (ilog2 a + 1)"
proof -
  have "2 powi ilog2 a \<le> a \<and> a < 2 powi (ilog2 a + 1)"
  proof (cases "1 \<le> a")
    case True
    define m where "m = \<lfloor>a\<rfloor>"
    have m: "0 < m" using True by (simp add: m_def)
    note b = bitlen_bounds[OF m]
    have e0: "0 \<le> bitlen m - 1" using bitlen_ge_1[OF m] by simp
    have il: "ilog2 a = bitlen m - 1" using True by (simp add: ilog2_def m_def)
    have "(2::rat) powi (bitlen m - 1) = of_int (2 ^ nat (bitlen m - 1))"
      using e0 by (simp add: powi_nonneg_eq)
    also have "\<dots> \<le> of_int m" using b by (simp only: of_int_le_iff)
    also have "\<dots> \<le> a" by (simp add: m_def)
    finally have lo: "2 powi (bitlen m - 1) \<le> a" .
    have "a < of_int (m + 1)" using floor_correct[of a] by (simp add: m_def)
    also have "\<dots> \<le> of_int (2 ^ nat (bitlen m))"
      using b by (simp only: of_int_le_iff) simp
    also have "\<dots> = (2::rat) powi (bitlen m - 1 + 1)"
      using e0 by (simp add: powi_nonneg_eq)
    finally have hi: "a < 2 powi (bitlen m - 1 + 1)" .
    from lo hi il show ?thesis by simp
  next
    case False
    define y where "y = 1 / a"
    define m where "m = \<lceil>y\<rceil> - 1"
    have y1: "1 < y" using False assms by (simp add: y_def)
    have ay: "a = 1 / y" by (simp add: y_def)
    have m: "0 < m" using y1 by (simp add: m_def less_ceiling_iff)
    note b = bitlen_bounds[OF m]
    have k1: "1 \<le> bitlen m" by (rule bitlen_ge_1[OF m])
    have il: "ilog2 a = - bitlen m" using False by (simp add: ilog2_def m_def y_def)
    have "y \<le> of_int (m + 1)" using ceiling_correct[of y] by (simp add: m_def)
    also have "\<dots> \<le> of_int (2 ^ nat (bitlen m))"
      using b by (simp only: of_int_le_iff) simp
    finally have "y \<le> 2 ^ nat (bitlen m)" by simp
    then have "1 / 2 ^ nat (bitlen m) \<le> 1 / y"
      using y1 by (intro divide_left_mono) simp_all
    then have lo: "2 powi (- bitlen m) \<le> a"
      using k1 by (simp add: powi_neg_eq ay)
    have "(2::rat) ^ nat (bitlen m - 1) = of_int (2 ^ nat (bitlen m - 1))" by simp
    also have "\<dots> \<le> of_int m" using b by (simp only: of_int_le_iff)
    also have "\<dots> < y" using ceiling_correct[of y] by (simp add: m_def)
    finally have "2 ^ nat (bitlen m - 1) < y" .
    then have "1 / y < 1 / 2 ^ nat (bitlen m - 1)"
      using y1 by (intro divide_strict_left_mono) (simp_all add: zero_less_mult_iff)
    moreover have "(2::rat) powi (- bitlen m + 1) = 1 / 2 ^ nat (bitlen m - 1)"
      using powi_neg_eq[of "bitlen m - 1"] k1 by simp
    ultimately have hi: "a < 2 powi (- bitlen m + 1)" by (simp add: ay)
    from lo hi il show ?thesis by simp
  qed
  then show "2 powi ilog2 a \<le> a" and "a < 2 powi (ilog2 a + 1)" by simp_all
qed

lemma round_half_even_close: "\<bar>of_int (round_half_even r) - r\<bar> \<le> 1 / 2"
proof -
  have "of_int \<lfloor>r\<rfloor> \<le> r" "r < of_int \<lfloor>r\<rfloor> + 1"
    using floor_correct[of r] by simp_all
  then show ?thesis
    unfolding round_half_even_def Let_def by (simp add: abs_if) linarith
qed

lemma round_half_even_mono_bound:
  assumes "0 \<le> r" "r \<le> of_int k"
  shows "0 \<le> round_half_even r" "round_half_even r \<le> k"
proof -
  have f0: "0 \<le> \<lfloor>r\<rfloor>" using assms(1) by simp
  then show "0 \<le> round_half_even r" by (auto simp: round_half_even_def Let_def)
  have "of_int (round_half_even r) \<le> r + 1 / 2"
    using round_half_even_close[of r] by (simp add: abs_if split: if_splits)
  also have "\<dots> \<le> of_int k + 1 / 2" using assms(2) by simp
  finally have "(of_int (round_half_even r) :: rat) < of_int (k + 1)" by simp
  then have "round_half_even r < k + 1" by (simp only: of_int_less_iff)
  then show "round_half_even r \<le> k" by simp
qed

text \<open>
  The rounding is the one of binary64: a finite result is a multiple \<open>n\<close> of the unit in
  the last place of the binade of \<open>x\<close>, with \<open>n\<close> of at most 53 bits, and lies within half
  a unit of \<open>x\<close>.
\<close>

lemma round_double_nearest:
  assumes "round_double x = Finite r"
  shows "\<exists>n. r = of_int n * 2 powi max (ilog2 \<bar>x\<bar> - 52) (- 1074)
           \<and> \<bar>n\<bar> \<le> 2 ^ 53
           \<and> \<bar>r - x\<bar> \<le> 2 powi max (ilog2 \<bar>x\<bar> - 52) (- 1074) / 2"
proof (cases "x = 0")
  case True
  with assms have "r = 0" by (simp add: round_double_def)
  with True show ?thesis by (intro exI[of _ 0]) simp
next
  case False
  define a where "a = \<bar>x\<bar>"
  define q where "q = max (ilog2 a - 52) (- 1074)"
  define u :: rat where "u = 2 powi q"
  define n where "n = round_half_even (a / u)"
  have a: "0 < a" using False by (simp add: a_def)
  have u: "0 < u" by (simp add: u_def)
  from assms False have r: "r = (if 0 < x then of_int n * u else - (of_int n * u))"
    by (simp add: round_double_def Let_def a_def q_def u_def n_def split: if_splits)
  have "a < 2 powi (ilog2 a + 1)" using a by (rule ilog2_bounds)
  also have "\<dots> \<le> 2 powi (q + 53)"
    by (rule power_int_increasing) (simp_all add: q_def)
  also have "\<dots> = u * 2 ^ 53" by (simp add: u_def power_int_add)
  finally have "a / u \<le> of_int (2 ^ 53)" using u by (simp add: field_simps)
  moreover have "0 \<le> a / u" using a u by simp
  ultimately have n: "0 \<le> n" "n \<le> 2 ^ 53"
    unfolding n_def using round_half_even_mono_bound[of "a / u" "2 ^ 53"] by simp_all
  have "\<bar>of_int n * u - a\<bar> = \<bar>of_int n - a / u\<bar> * u"
    using u by (simp add: abs_mult[symmetric] field_simps del: abs_mult)
  also have "\<dots> \<le> 1 / 2 * u"
    using round_half_even_close[of "a / u"] u unfolding n_def
    by (intro mult_right_mono) simp_all
  finally have c: "\<bar>of_int n * u - a\<bar> \<le> u / 2" by simp
  show ?thesis
  proof (cases "0 < x")
    case True
    with r c n show ?thesis
      by (intro exI[of _ n]) (simp add: a_def u_def q_def)
  next
    case neg: False
    with False have xa: "x = - a" by (simp add: a_def)
    from neg r have rn: "r = of_int (- n) * u" by simp
    have "\<bar>r - x\<bar> = \<bar>- (of_int n * u - a)\<bar>" unfolding rn xa by simp
    also have "\<dots> \<le> u / 2" using c by (simp only: abs_minus_cancel)
    finally have "\<bar>r - x\<bar> \<le> u / 2" .
    with rn n show ?thesis
      by (intro exI[of _ "- n"]) (simp add: a_def u_def q_def)
  qed
qed

lemma round_half_even_of_int [simp]: "round_half_even (of_int k) = k"
  by (simp add: round_half_even_def)

text \<open>
  Integers up to \<open>2 ^ 53\<close> in magnitude are JavaScript numbers as they stand: a quantity
  kept as an \<open>int\<close> is the number the page holds.
\<close>

lemma number_of_int_exact:
  assumes "\<bar>i\<bar> \<le> 2 ^ 53"
  shows "number_of_int i = Finite (of_int i)"
proof (cases "i = 0")
  case True
  then show ?thesis by (simp add: number_of_int_def round_double_def)
next
  case False
  define a :: rat where "a = of_int \<bar>i\<bar>"
  define e where "e = ilog2 a"
  define q where "q = max (e - 52) (- 1074)"
  have a: "0 < a" "a \<le> 2 ^ 53"
    using False assms unfolding a_def
    by (simp, metis of_int_le_iff of_int_numeral of_int_power)
  have absx: "\<bar>(of_int i :: rat)\<bar> = a" by (simp add: a_def)
  have lo: "2 powi e \<le> a" unfolding e_def using a(1) by (rule ilog2_bounds)
  have e53: "e \<le> 53"
  proof (rule ccontr)
    assume "\<not> e \<le> 53"
    then have "(2::rat) powi 54 \<le> 2 powi e" by (intro power_int_increasing) simp_all
    with lo a(2) show False by simp
  qed
  have int_q: "\<exists>k. a / 2 powi q = of_int k"
  proof (cases "e \<le> 52")
    case True
    then have q0: "q \<le> 0" by (simp add: q_def)
    then have "(2::rat) powi q = 1 / 2 ^ nat (- q)"
      using powi_neg_eq[of "- q"] by simp
    then have "a / 2 powi q = of_int (\<bar>i\<bar> * 2 ^ nat (- q))" by (simp add: a_def)
    then show ?thesis ..
  next
    case False
    with e53 have e: "e = 53" by simp
    then have "(2::rat) ^ 53 \<le> a" using lo by simp
    with a(2) have "a = 2 ^ 53" by simp
    moreover have "q = 1" by (simp add: q_def e)
    ultimately have "a / 2 powi q = of_int (2 ^ 52)" by simp
    then show ?thesis ..
  qed
  then obtain k where k: "a / 2 powi q = of_int k" ..
  then have bk: "of_int k * 2 powi q = a" by (simp add: field_simps)
  have small: "\<not> (2::rat) ^ 1024 \<le> a" using a(2) by simp
  have "round_double (of_int i) = Finite (if 0 < (of_int i :: rat) then a else - a)"
    using False small
    by (simp add: round_double_def Let_def absx e_def[symmetric] q_def[symmetric] k bk
        del: of_int_abs)
  also have "(if 0 < (of_int i :: rat) then a else - a) = of_int i"
    by (simp add: a_def)
  finally show ?thesis by (simp add: number_of_int_def)
qed

section \<open>Properties of the pricing\<close>

text \<open>Evaluation of the rounding and of \<open>toFixed\<close> on numerals, by conditional rewriting.\<close>

lemma floor_rat_numeral: "\<lfloor>(numeral a / numeral b :: rat)\<rfloor> = numeral a div numeral b"
  by (metis floor_divide_of_int_eq of_int_numeral)

lemma ceiling_rat_numeral: "\<lceil>(numeral a / numeral b :: rat)\<rceil> = - (- numeral a div numeral b)"
  by (metis ceiling_def floor_divide_of_int_eq minus_divide_left of_int_minus of_int_numeral)

lemma bitlen_pos: "0 < x \<Longrightarrow> bitlen x = bitlen (x div 2) + 1"
  by (subst compute_bitlen) simp

lemma bitlen_nonpos: "x \<le> 0 \<Longrightarrow> bitlen x = 0"
  by (subst compute_bitlen) simp

lemma digits_small: "n < 10 \<Longrightarrow> digits n = [digit_char n]"
  by (subst digits.simps) simp

lemma digits_large: "10 \<le> n \<Longrightarrow> digits n = digits (n div 10) @ [digit_char (n mod 10)]"
  by (subst digits.simps) simp

lemmas round_eval = round_double_def ilog2_def round_half_even_def Let_def bitlen_pos bitlen_nonpos
  decimal_def number_of_int_def floor_rat_numeral ceiling_rat_numeral

lemmas fixed_eval = toFixed2_def Let_def floor_rat_numeral digits_small digits_large digit_char_def

lemma dec_899: "decimal 899 2 = Finite (5060920081257595 / 562949953421312)"
  by (simp add: round_eval)
lemma dec_1299: "decimal 1299 2 = Finite (7312719894942843 / 562949953421312)"
  by (simp add: round_eval)
lemma dec_01: "decimal 1 1 = Finite (3602879701896397 / 36028797018963968)"
  by (simp add: round_eval)
lemma dec_599: "decimal 599 2 = Finite (3372070220993659 / 562949953421312)"
  by (simp add: round_eval)
lemma dec_3097: "decimal 3097 2 = Finite (1089660003591127 / 35184372088832)"
  by (simp add: round_eval)
lemma dec_3097': "decimal 3097 3 = Finite (6973824022983213 / 2251799813685248)"
  by (simp add: round_eval)
lemma dec_34067: "decimal 34067 3 = Finite (4794504015800959 / 140737488355328)"
  by (simp add: round_eval)
lemma dec_40057: "decimal 40057 3 = Finite (2818760785524687 / 70368744177664)"
  by (simp add: round_eval)
lemma int_2: "number_of_int 2 = Finite 2"
  by (simp add: round_eval)
lemma int_1: "number_of_int 1 = Finite 1"
  by (simp add: round_eval)
lemma mul_1: "js_mul (Finite (5060920081257595 / 562949953421312)) (Finite 2) = Finite (5060920081257595 / 281474976710656)"
  by (simp add: round_eval)
lemma add_1: "js_add (Finite 0) (Finite (5060920081257595 / 281474976710656)) = Finite (5060920081257595 / 281474976710656)"
  by (simp add: round_eval)
lemma mul_2: "js_mul (Finite (7312719894942843 / 562949953421312)) (Finite 1) = Finite (7312719894942843 / 562949953421312)"
  by (simp add: round_eval)
lemma add_2: "js_add (Finite (5060920081257595 / 281474976710656)) (Finite (7312719894942843 / 562949953421312)) = Finite (1089660003591127 / 35184372088832)"
  by (simp add: round_eval)
lemma mul_3: "js_mul (Finite (1089660003591127 / 35184372088832)) (Finite (3602879701896397 / 36028797018963968)) = Finite (6973824022983213 / 2251799813685248)"
  by (simp add: round_eval)
lemma add_3: "js_add (Finite (1089660003591127 / 35184372088832)) (Finite (6973824022983213 / 2251799813685248)) = Finite (4794504015800959 / 140737488355328)"
  by (simp add: round_eval)
lemma add_4: "js_add (Finite (4794504015800959 / 140737488355328)) (Finite 0) = Finite (4794504015800959 / 140737488355328)"
  by (simp add: round_eval)
lemma add_5: "js_add (Finite (4794504015800959 / 140737488355328)) (Finite (3372070220993659 / 562949953421312)) = Finite (2818760785524687 / 70368744177664)"
  by (simp add: round_eval)
lemma fx_1: "toFixed2 (Finite (1089660003591127 / 35184372088832)) = Some ''30.97''"
  by (simp add: fixed_eval)
lemma fx_2: "toFixed2 (Finite (6973824022983213 / 2251799813685248)) = Some ''3.10''"
  by (simp add: fixed_eval)
lemma fx_3: "toFixed2 (Finite (4794504015800959 / 140737488355328)) = Some ''34.07''"
  by (simp add: fixed_eval)
lemma fx_4: "toFixed2 (Finite (2818760785524687 / 70368744177664)) = Some ''40.06''"
  by (simp add: fixed_eval)

lemma price_example [simp]:
  "price (menu_item.extend spring_rolls e) = decimal 899 2"
  "price (menu_item.extend chicken_wings e) = decimal 1299 2"
  by (simp_all add: spring_rolls_def chicken_wings_def menu_item.defs)

lemma subtotal_example: "subtotal example_cart = Finite (1089660003591127 / 35184372088832)"
proof -
  have "subtotal example_cart =
      js_add (js_add (Finite 0) (js_mul (decimal 899 2) (number_of_int 2)))
        (js_mul (decimal 1299 2) (number_of_int 1))"
    by (simp add: subtotal_def example_cart_def del: js_add.simps js_mul.simps)
  then show ?thesis
    by (simp only: dec_899 dec_1299 int_2 int_1 mul_1 add_1 mul_2 add_2)
qed

lemma tax_example: "tax example_cart = Finite (6973824022983213 / 2251799813685248)"
  by (simp only: tax_def subtotal_example dec_01 mul_3)

lemma total_example_dine_in:
  "total' example_cart DineIn = Finite (4794504015800959 / 140737488355328)"
  by (simp only: total'_def subtotal_example tax_example deliveryFee_def add_3 add_4
      order_type.distinct if_False)

lemma total_example_delivery:
  "total' example_cart Delivery = Finite (2818760785524687 / 70368744177664)"
  by (simp only: total'_def subtotal_example tax_example deliveryFee_def add_3 add_5 dec_599
      if_True refl)

lemma subtotal_snoc:
  "subtotal (c @ [l]) = js_add (subtotal c) (js_mul (price l) (number_of_int (quantity l)))"
  by (simp add: subtotal_def)

text \<open>
  Claim C1. For every cart and order type the checkout page computes: the subtotal as the
  left-to-right sum over the cart lines of unit price times quantity, starting from zero;
  the tax as the subtotal times \<open>0.1\<close>; the delivery fee as \<open>5.99\<close> for a delivery and
  zero otherwise; the total as subtotal plus tax plus delivery fee. Sum and product are
  those of JavaScript numbers. For the cart of two items at 8.99 and one at 12.99 the
  subtotal is the number 30.97, the tax is 3.097 and shows as 3.10, the total for dining
  in is 34.067 and shows as 34.07, and the total for a delivery adds 5.99 to that, is
  40.057 and shows as 40.06.
\<close>

theorem checkout_pricing:
  "subtotal [] = Finite 0
   \<and> subtotal (c @ [l]) = js_add (subtotal c) (js_mul (price l) (number_of_int (quantity l)))
   \<and> tax c = js_mul (subtotal c) (decimal 1 1)
   \<and> deliveryFee ot = (if ot = Delivery then decimal 599 2 else Finite 0)
   \<and> total' c ot = js_add (js_add (subtotal c) (tax c)) (deliveryFee ot)
   \<and> subtotal example_cart = decimal 3097 2
   \<and> toFixed2 (subtotal example_cart) = Some ''30.97''
   \<and> tax example_cart = decimal 3097 3
   \<and> toFixed2 (tax example_cart) = Some ''3.10''
   \<and> total' example_cart DineIn = decimal 34067 3
   \<and> toFixed2 (total' example_cart DineIn) = Some ''34.07''
   \<and> total' example_cart Delivery = js_add (total' example_cart DineIn) (decimal 599 2)
   \<and> total' example_cart Delivery = decimal 40057 3
   \<and> toFixed2 (total' example_cart Delivery) = Some ''40.06''"
proof -
  have g1: "subtotal [] = Finite 0" by (simp add: subtotal_def)
  have g2: "tax c = js_mul (subtotal c) (decimal 1 1)" by (simp add: tax_def)
  have g3: "deliveryFee ot = (if ot = Delivery then decimal 599 2 else Finite 0)"
    by (simp add: deliveryFee_def)
  have g4: "total' c ot = js_add (js_add (subtotal c) (tax c)) (deliveryFee ot)"
    by (simp add: total'_def)
  have e1: "subtotal example_cart = decimal 3097 2" by (simp only: subtotal_example dec_3097)
  have e2: "toFixed2 (subtotal example_cart) = Some ''30.97''" by (simp only: subtotal_example fx_1)
  have e3: "tax example_cart = decimal 3097 3" by (simp only: tax_example dec_3097')
  have e4: "toFixed2 (tax example_cart) = Some ''3.10''" by (simp only: tax_example fx_2)
  have e5: "total' example_cart DineIn = decimal 34067 3"
    by (simp only: total_example_dine_in dec_34067)
  have e6: "toFixed2 (total' example_cart DineIn) = Some ''34.07''"
    by (simp only: total_example_dine_in fx_3)
  have e7: "total' example_cart Delivery = js_add (total' example_cart DineIn) (decimal 599 2)"
    by (simp only: total_example_dine_in total_example_delivery dec_599 add_5)
  have e8: "total' example_cart Delivery = decimal 40057 3"
    by (simp only: total_example_delivery dec_40057)
  have e9: "toFixed2 (total' example_cart Delivery) = Some ''40.06''"
    by (simp only: total_example_delivery fx_4)
  from g1 subtotal_snoc g2 g3 g4 e1 e2 e3 e4 e5 e6 e7 e8 e9 show ?thesis by blast
qed

section \<open>Properties of placing an order\<close>

lemma insert_order_Inr:
  "insert_order st uid r = Inr st1 \<Longrightarrow>
   st1 = st\<lparr>orders := orders st @ [r]\<rparr> \<and> row_id r \<notin> set (map row_id (orders st))
   \<and> order_fk_ok st r"
  by (simp add: insert_order_def split: if_splits)

lemma insert_ordered_items_Inr:
  "insert_ordered_items st uid items = Inr st2 \<Longrightarrow>
   st2 = st\<lparr>ordered_items := ordered_items st @ items\<rparr>"
  by (simp add: insert_ordered_items_def split: if_splits)

text \<open>The five ways \<open>handlePlaceOrder\<close> can end.\<close>

lemma handlePlaceOrder_result:
  assumes "handlePlaceOrder cs session new_id st = (out, st')"
  shows "(out = ToastEnterAddress \<and> st' = st \<and> orderType cs = Delivery
            \<and> trim (deliveryAddress cs) = [])
       \<or> (out = NavigateAuth \<and> st' = st \<and> session = None)
       \<or> (\<exists>uid e. session = Some uid \<and> out = ToastError e \<and> st' = st
            \<and> insert_order st (Some uid) (new_order cs uid new_id) = Inl e)
       \<or> (\<exists>uid e. session = Some uid \<and> out = ToastError e
            \<and> \<not> (orderType cs = Delivery \<and> trim (deliveryAddress cs) = [])
            \<and> st' = st\<lparr>orders := orders st @ [new_order cs uid new_id]\<rparr>
            \<and> insert_ordered_items st' (Some uid) (orderItems (cart cs) new_id) = Inl e)
       \<or> (\<exists>uid. session = Some uid \<and> out = OrderPlaced
            \<and> \<not> (orderType cs = Delivery \<and> trim (deliveryAddress cs) = [])
            \<and> new_id \<notin> set (map row_id (orders st))
            \<and> st' = st\<lparr>orders := orders st @ [new_order cs uid new_id],
                        ordered_items := ordered_items st @ orderItems (cart cs) new_id\<rparr>)"
proof (cases "orderType cs = Delivery \<and> trim (deliveryAddress cs) = []")
  case True
  with assms show ?thesis by (auto simp: handlePlaceOrder_def)
next
  case guard: False
  show ?thesis
  proof (cases session)
    case None
    with assms guard show ?thesis by (auto simp: handlePlaceOrder_def)
  next
    case (Some uid)
    show ?thesis
    proof (cases "insert_order st (Some uid) (new_order cs uid new_id)")
      case (Inl e)
      with assms guard Some show ?thesis by (auto simp: handlePlaceOrder_def)
    next
      case (Inr st1)
      note s1 = insert_order_Inr[OF Inr]
      show ?thesis
      proof (cases "insert_ordered_items st1 (Some uid) (orderItems (cart cs) new_id)")
        case (Inl e)
        with assms guard Some Inr s1 show ?thesis
          by (auto simp: handlePlaceOrder_def new_order_def)
      next
        case inr2: (Inr st2)
        note s2 = insert_ordered_items_Inr[OF inr2]
        from assms guard Some Inr inr2 have "out = OrderPlaced" "st' = st2"
          by (auto simp: handlePlaceOrder_def)
        with s1 s2 guard Some show ?thesis by (simp add: new_order_def)
      qed
    qed
  qed
qed

lemma trim_Nil [simp]: "trim [] = []"
  by (simp add: trim_def)


lemma new_order_fields [simp]:
  "row_id (new_order cs uid new_id) = new_id"
  "user_id (new_order cs uid new_id) = Some uid"
  "branch_id (new_order cs uid new_id) = Some (branchId cs)"
  "order_type (new_order cs uid new_id) = orderType cs"
  "status (new_order cs uid new_id) = Some Pending"
  "delivery_address (new_order cs uid new_id)
     = (if orderType cs = Delivery then Some (deliveryAddress cs) else None)"
  by (simp_all add: new_order_def)

text \<open>
  Claim C7. A checkout for delivery whose address is empty or white space only is rejected
  and stores nothing. Every order that \<open>handlePlaceOrder\<close> adds to the store has a
  delivery address, and a non-empty one, exactly when its order type is delivery; for the
  other order types the address is null.
\<close>

theorem delivery_address_required:
  "(orderType cs = Delivery \<and> trim (deliveryAddress cs) = [] \<longrightarrow>
      handlePlaceOrder cs session new_id st = (ToastEnterAddress, st))
   \<and> (\<forall>r\<in>set (orders (snd (handlePlaceOrder cs session new_id st))). r \<notin> set (orders st) \<longrightarrow>
        ((\<exists>a. delivery_address r = Some a \<and> a \<noteq> []) \<longleftrightarrow> order_type r = Delivery)
        \<and> (order_type r \<noteq> Delivery \<longrightarrow> delivery_address r = None))"
proof (intro conjI impI ballI)
  assume "orderType cs = Delivery \<and> trim (deliveryAddress cs) = []"
  then show "handlePlaceOrder cs session new_id st = (ToastEnterAddress, st)"
    by (simp add: handlePlaceOrder_def)
next
  fix r
  assume r: "r \<in> set (orders (snd (handlePlaceOrder cs session new_id st)))" "r \<notin> set (orders st)"
  obtain out st' where h: "handlePlaceOrder cs session new_id st = (out, st')"
    by (cases "handlePlaceOrder cs session new_id st")
  from r h have m: "r \<in> set (orders st')" by simp
  from handlePlaceOrder_result[OF h] m r(2)
  obtain uid where g: "\<not> (orderType cs = Delivery \<and> trim (deliveryAddress cs) = [])"
    and e: "r = new_order cs uid new_id"
    by auto
  from g have ne: "orderType cs = Delivery \<Longrightarrow> deliveryAddress cs \<noteq> []" by auto
  from e ne show "(\<exists>a. delivery_address r = Some a \<and> a \<noteq> []) \<longleftrightarrow> order_type r = Delivery"
    by auto
  assume "order_type r \<noteq> Delivery"
  with e show "delivery_address r = None" by simp
qed

lemmas example_defs = example_store_def example_checkout_def open_checkout_def example_cart_def
  spring_rolls_def chicken_wings_def menu_item.defs cart_item.defs

lemmas store_defs = insert_order_def insert_ordered_items_def orders_insert_check_def
  order_fk_ok_def item_fk_ok_def items_insert_check_def references_def orderItems_def

lemma place_example:
  "handlePlaceOrder (example_checkout DineIn []) (Some ''u1'') ''o1'' example_store
     = (OrderPlaced, ordered_store)"
  by (simp add: handlePlaceOrder_def store_defs ordered_store_def example_order_def example_defs)

lemma place_reduced:
  "handlePlaceOrder (example_checkout DineIn []) (Some ''u1'') ''o1'' reduced_store
     = (ToastError ForeignKeyViolation, reduced_store\<lparr>orders := [example_order]\<rparr>)"
  by (simp add: handlePlaceOrder_def store_defs reduced_store_def example_order_def example_defs)

lemma trim_blank: "trim [0x20, 0x9] = []"
  by (simp add: trim_def is_white_space_def)

text \<open>The address of a space and a tab, and the order of the example store.\<close>

theorem delivery_address_required_witness:
  "orderType (example_checkout Delivery [0x20, 0x9]) = Delivery
   \<and> trim (deliveryAddress (example_checkout Delivery [0x20, 0x9])) = []
   \<and> handlePlaceOrder (example_checkout Delivery [0x20, 0x9]) (Some ''u1'') ''o1'' example_store
       = (ToastEnterAddress, example_store)
   \<and> example_order \<in> set (orders (snd (handlePlaceOrder (example_checkout DineIn []) (Some ''u1'')
         ''o1'' example_store)))
   \<and> example_order \<notin> set (orders example_store)
   \<and> order_type example_order \<noteq> Delivery
   \<and> delivery_address example_order = None"
proof -
  let ?cs = "example_checkout Delivery [0x20, 0x9]"
  have a: "orderType ?cs = Delivery" "trim (deliveryAddress ?cs) = []"
    by (simp_all add: example_checkout_def open_checkout_def trim_blank)
  note t1 = delivery_address_required[of ?cs "Some ''u1''" "''o1''" example_store]
  from t1 a have r1: "handlePlaceOrder ?cs (Some ''u1'') ''o1'' example_store
      = (ToastEnterAddress, example_store)"
    by blast
  let ?h = "handlePlaceOrder (example_checkout DineIn []) (Some ''u1'') ''o1'' example_store"
  have b1: "example_order \<in> set (orders (snd ?h))"
    by (simp add: place_example ordered_store_def)
  have b2: "example_order \<notin> set (orders example_store)"
    by (simp add: example_store_def)
  note b = b1 b2
  have c: "order_type example_order \<noteq> Delivery"
    by (simp add: example_order_def example_checkout_def open_checkout_def)
  note t2 = delivery_address_required[of "example_checkout DineIn []" "Some ''u1''" "''o1''"
      example_store]
  from t2 b1 b2 c have r2: "delivery_address example_order = None" by blast
  from a r1 b1 b2 c r2 show ?thesis by blast
qed

lemma navigated_empty:
  assumes "navigated ls" "cart (open_checkout ls ot addr ns) = []"
  shows "ls = None"
proof (cases ls)
  case None then show ?thesis .
next
  case (Some l)
  with assms(2) have "ls_cart l = []" by (simp add: open_checkout_def)
  with assms(1) Some show ?thesis by (simp add: navigated_def handleCheckout_def split: if_splits)
qed

lemma insert_order_no_branch:
  "branchId cs \<notin> set (branches st) \<Longrightarrow> insert_order st (Some uid) (new_order cs uid new_id) \<noteq> Inr st1"
  by (simp add: insert_order_def order_fk_ok_def references_def)

lemma place_order_no_branch:
  assumes "branchId cs \<notin> set (branches st)"
  shows "snd (handlePlaceOrder cs session new_id st) = st"
    and "fst (handlePlaceOrder cs session new_id st) \<noteq> OrderPlaced"
proof -
  obtain out st' where h: "handlePlaceOrder cs session new_id st = (out, st')"
    by (cases "handlePlaceOrder cs session new_id st")
  have "insert_order st (Some uid) (new_order cs uid new_id) \<noteq> Inr st1" for uid st1
    using assms by (rule insert_order_no_branch)
  then have "st' = st \<and> out \<noteq> OrderPlaced"
    using h by (auto simp: handlePlaceOrder_def split: if_splits option.splits sum.splits)
  with h show "snd (handlePlaceOrder cs session new_id st) = st"
    and "fst (handlePlaceOrder cs session new_id st) \<noteq> OrderPlaced" by simp_all
qed

text \<open>
  Claim C6. Whatever the order type, an empty cart leads to no order. On the menu page
  \<open>handleCheckout\<close> answers an empty cart with a toast and does not navigate. The checkout
  page therefore holds an empty cart only when it was opened without location state, and
  then its branch id is the empty string, which is the id of no branch: \<open>handlePlaceOrder\<close>
  does not report a placed order and leaves the store as it was.
\<close>

theorem empty_cart_rejected:
  "handleCheckout selectedBranch [] = (if selectedBranch = '''' then ToastSelectBranch else ToastCartEmpty)
   \<and> (navigated ls \<and> cart (open_checkout ls ot addr ns) = [] \<and> '''' \<notin> set (branches st) \<longrightarrow>
        snd (handlePlaceOrder (open_checkout ls ot addr ns) session new_id st) = st
        \<and> fst (handlePlaceOrder (open_checkout ls ot addr ns) session new_id st) \<noteq> OrderPlaced)"
proof (intro conjI impI)
  show "handleCheckout selectedBranch [] = (if selectedBranch = '''' then ToastSelectBranch else ToastCartEmpty)"
    by (simp add: handleCheckout_def)
next
  assume a: "navigated ls \<and> cart (open_checkout ls ot addr ns) = [] \<and> '''' \<notin> set (branches st)"
  then have "ls = None" using navigated_empty by blast
  with a have b: "branchId (open_checkout ls ot addr ns) \<notin> set (branches st)"
    by (simp add: open_checkout_def)
  show "snd (handlePlaceOrder (open_checkout ls ot addr ns) session new_id st) = st"
    using b by (rule place_order_no_branch)
  show "fst (handlePlaceOrder (open_checkout ls ot addr ns) session new_id st) \<noteq> OrderPlaced"
    using b by (rule place_order_no_branch)
qed

text \<open>The checkout page opened by its URL, against the example store.\<close>

theorem empty_cart_rejected_witness:
  "navigated None \<and> cart (open_checkout None Delivery [0x48] []) = []
   \<and> '''' \<notin> set (branches example_store)
   \<and> snd (handlePlaceOrder (open_checkout None Delivery [0x48] []) (Some ''u1'') ''o1'' example_store)
       = example_store
   \<and> fst (handlePlaceOrder (open_checkout None Delivery [0x48] []) (Some ''u1'') ''o1'' example_store)
       \<noteq> OrderPlaced"
proof -
  have a: "navigated None" "cart (open_checkout None Delivery [0x48] []) = []"
    "'''' \<notin> set (branches example_store)"
    by (simp_all add: navigated_def open_checkout_def example_store_def)
  note t = empty_cart_rejected[of "''b1''" None Delivery "[0x48]" "[]" example_store "Some ''u1''" "''o1''"]
  from t a show ?thesis by blast
qed

text \<open>
  Claim C8, as the code has it. The order row and its lines go to the store in two
  requests, the second only after the first succeeded, and nothing undoes the first. When
  \<open>handlePlaceOrder\<close> reports a placed order, the order row and all lines of the cart were
  added. Otherwise either nothing was stored, or the insert of the lines failed and the order
  row alone was added and stays.
\<close>

theorem two_request_submission:
  "handlePlaceOrder cs session new_id st = (out, st') \<longrightarrow>
     (out = OrderPlaced \<longrightarrow>
        (\<exists>uid. session = Some uid
           \<and> st' = st\<lparr>orders := orders st @ [new_order cs uid new_id],
                       ordered_items := ordered_items st @ orderItems (cart cs) new_id\<rparr>))
     \<and> (out \<noteq> OrderPlaced \<longrightarrow>
          st' = st
          \<or> (\<exists>uid e. session = Some uid \<and> out = ToastError e
                \<and> insert_ordered_items st' (Some uid) (orderItems (cart cs) new_id) = Inl e
                \<and> st' = st\<lparr>orders := orders st @ [new_order cs uid new_id]\<rparr>))"
proof
  assume "handlePlaceOrder cs session new_id st = (out, st')"
  from handlePlaceOrder_result[OF this] show
    "(out = OrderPlaced \<longrightarrow>
        (\<exists>uid. session = Some uid
           \<and> st' = st\<lparr>orders := orders st @ [new_order cs uid new_id],
                       ordered_items := ordered_items st @ orderItems (cart cs) new_id\<rparr>))
     \<and> (out \<noteq> OrderPlaced \<longrightarrow>
          st' = st
          \<or> (\<exists>uid e. session = Some uid \<and> out = ToastError e
                \<and> insert_ordered_items st' (Some uid) (orderItems (cart cs) new_id) = Inl e
                \<and> st' = st\<lparr>orders := orders st @ [new_order cs uid new_id]\<rparr>))"
    by (elim disjE exE conjE) simp_all
qed

text \<open>The example order against the store without the chicken wings, and against the full one.\<close>

theorem two_request_submission_witness:
  "handlePlaceOrder (example_checkout DineIn []) (Some ''u1'') ''o1'' reduced_store
     = (ToastError ForeignKeyViolation, reduced_store\<lparr>orders := [example_order]\<rparr>)
   \<and> ToastError ForeignKeyViolation \<noteq> OrderPlaced
   \<and> reduced_store\<lparr>orders := [example_order]\<rparr> \<noteq> reduced_store
   \<and> insert_ordered_items (reduced_store\<lparr>orders := [example_order]\<rparr>) (Some ''u1'')
        (orderItems (cart (example_checkout DineIn [])) ''o1'') = Inl ForeignKeyViolation"
proof -
  let ?st' = "reduced_store\<lparr>orders := [example_order]\<rparr>"
  note t = two_request_submission[of "example_checkout DineIn []" "Some ''u1''" "''o1''"
      reduced_store "ToastError ForeignKeyViolation" ?st']
  have n: "?st' \<noteq> reduced_store"
  proof
    assume "?st' = reduced_store"
    then have "orders ?st' = orders reduced_store" by simp
    then show False by (simp add: reduced_store_def example_store_def)
  qed
  from t place_reduced n
  have "\<exists>uid e. Some ''u1'' = Some uid \<and> ToastError ForeignKeyViolation = ToastError e
      \<and> insert_ordered_items ?st' (Some uid) (orderItems (cart (example_checkout DineIn [])) ''o1'') = Inl e"
    by blast
  then have "insert_ordered_items ?st' (Some ''u1'')
      (orderItems (cart (example_checkout DineIn [])) ''o1'') = Inl ForeignKeyViolation"
    by auto
  with place_reduced n show ?thesis by simp
qed

text \<open>
  Claim C8 as stated fails: with a cart line whose menu row no longer exists, the order row
  is stored and none of its lines is.
\<close>

theorem order_stored_without_items:
  "fst (handlePlaceOrder (example_checkout DineIn []) (Some ''u1'') ''o1'' reduced_store)
     = ToastError ForeignKeyViolation
   \<and> orders reduced_store = []
   \<and> ordered_items reduced_store = []
   \<and> orders (snd (handlePlaceOrder (example_checkout DineIn []) (Some ''u1'') ''o1'' reduced_store))
       = [example_order]
   \<and> length (cart (example_checkout DineIn [])) = 2
   \<and> ordered_items
        (snd (handlePlaceOrder (example_checkout DineIn []) (Some ''u1'') ''o1'' reduced_store)) = []"
  by (simp add: place_reduced)
    (simp add: reduced_store_def example_store_def example_checkout_def open_checkout_def
      example_cart_def)

lemma select_new_items:
  assumes fk: "list_all (item_fk_ok st) (ordered_items st)"
    and fresh: "new_id \<notin> set (map row_id (orders st))"
    and st': "st' = st\<lparr>orders := orders st @ [new_order cs uid new_id],
                       ordered_items := ordered_items st @ orderItems c new_id\<rparr>"
  shows "select_ordered_items st' (Some uid) new_id = orderItems c new_id"
proof -
  have old: "filter (\<lambda>i. order_id i = Some new_id \<and> items_select_using st' (Some uid) i)
      (ordered_items st) = []"
  proof -
    have "order_id i \<noteq> Some new_id" if "i \<in> set (ordered_items st)" for i
    proof
      assume "order_id i = Some new_id"
      moreover from fk that have "item_fk_ok st i" by (simp add: list_all_iff)
      ultimately have "new_id \<in> set (map row_id (orders st))"
        by (simp add: item_fk_ok_def references_def)
      with fresh show False by simp
    qed
    then show ?thesis by (simp add: filter_empty_conv)
  qed
  have new: "filter (\<lambda>i. order_id i = Some new_id \<and> items_select_using st' (Some uid) i)
      (orderItems c new_id) = orderItems c new_id"
  proof -
    have "order_id i = Some new_id \<and> items_select_using st' (Some uid) i"
      if "i \<in> set (orderItems c new_id)" for i
    proof -
      from that have o: "order_id i = Some new_id" by (auto simp: orderItems_def)
      have "new_order cs uid new_id \<in> set (orders st')" by (simp add: st')
      with o have "items_select_using st' (Some uid) i"
        unfolding items_select_using_def by (intro bexI[of _ "new_order cs uid new_id"]) simp_all
      with o show ?thesis by simp
    qed
    then show ?thesis by (simp add: filter_id_conv)
  qed
  show ?thesis
    unfolding select_ordered_items_def
    using old new by (simp add: st')
qed

lemma select_set_menu_price:
  "select_ordered_items (set_menu_price mid p st) uid oid = select_ordered_items st uid oid"
  by (simp add: select_ordered_items_def set_menu_price_def items_select_using_def
      staff_of_branch_def)

lemma orderItems_nth:
  "k < length c \<Longrightarrow>
   orderItems c oid ! k = \<lparr>order_id = Some oid, menu_id = Some (id' (c ! k)),
      item_quantity = quantity (c ! k), price_each = price (c ! k)\<rparr>"
  by (simp add: orderItems_def)

text \<open>
  Claim C9. When \<open>handlePlaceOrder\<close> reports a placed order for a cart of N lines, in a
  store that satisfies its constraints, the items read back for the new order are exactly
  N, one per cart line and in the order of the cart, each with the line's item id, its
  quantity, and as \<open>price_each\<close> the unit price the line carried when the order was
  submitted. A later change of a price in the \<open>menu\<close> table changes neither the stored
  rows nor what is read back.
\<close>

theorem ordered_items_round_trip:
  "constraints_ok st \<and> handlePlaceOrder cs session new_id st = (OrderPlaced, st') \<longrightarrow>
     length (select_ordered_items st' session new_id) = length (cart cs)
     \<and> (\<forall>k<length (cart cs).
           menu_id (select_ordered_items st' session new_id ! k) = Some (id' (cart cs ! k))
           \<and> item_quantity (select_ordered_items st' session new_id ! k) = quantity (cart cs ! k)
           \<and> price_each (select_ordered_items st' session new_id ! k) = price (cart cs ! k))
     \<and> ordered_items (set_menu_price mid p st') = ordered_items st'
     \<and> select_ordered_items (set_menu_price mid p st') session new_id
         = select_ordered_items st' session new_id"
proof
  assume a: "constraints_ok st \<and> handlePlaceOrder cs session new_id st = (OrderPlaced, st')"
  then have fk: "list_all (item_fk_ok st) (ordered_items st)" by (simp add: constraints_ok_def)
  from a have h: "handlePlaceOrder cs session new_id st = (OrderPlaced, st')" by simp
  from handlePlaceOrder_result[OF h] obtain uid where s: "session = Some uid"
    and fresh: "new_id \<notin> set (map row_id (orders st))"
    and st': "st' = st\<lparr>orders := orders st @ [new_order cs uid new_id],
                       ordered_items := ordered_items st @ orderItems (cart cs) new_id\<rparr>"
    by auto
  have sel: "select_ordered_items st' session new_id = orderItems (cart cs) new_id"
    unfolding s using fk fresh st' by (rule select_new_items)
  have len: "length (orderItems (cart cs) new_id) = length (cart cs)" by (simp add: orderItems_def)
  show "length (select_ordered_items st' session new_id) = length (cart cs)
     \<and> (\<forall>k<length (cart cs).
           menu_id (select_ordered_items st' session new_id ! k) = Some (id' (cart cs ! k))
           \<and> item_quantity (select_ordered_items st' session new_id ! k) = quantity (cart cs ! k)
           \<and> price_each (select_ordered_items st' session new_id ! k) = price (cart cs ! k))
     \<and> ordered_items (set_menu_price mid p st') = ordered_items st'
     \<and> select_ordered_items (set_menu_price mid p st') session new_id
         = select_ordered_items st' session new_id"
    unfolding sel select_set_menu_price
    by (simp add: len orderItems_nth set_menu_price_def sel)
qed

lemma constraints_example: "constraints_ok example_store"
  by (simp add: constraints_ok_def example_store_def)

text \<open>The example order, read back before and after the spring rolls go up to 9.99.\<close>

theorem ordered_items_round_trip_witness:
  "constraints_ok example_store
   \<and> handlePlaceOrder (example_checkout DineIn []) (Some ''u1'') ''o1'' example_store
       = (OrderPlaced, ordered_store)
   \<and> length (select_ordered_items ordered_store (Some ''u1'') ''o1'') = 2
   \<and> price_each (select_ordered_items ordered_store (Some ''u1'') ''o1'' ! 0) = decimal 899 2
   \<and> item_quantity (select_ordered_items ordered_store (Some ''u1'') ''o1'' ! 0) = 2
   \<and> select_ordered_items (set_menu_price ''m1'' (decimal 999 2) ordered_store) (Some ''u1'') ''o1''
       = select_ordered_items ordered_store (Some ''u1'') ''o1''"
proof -
  note t = ordered_items_round_trip[of example_store "example_checkout DineIn []" "Some ''u1''"
      "''o1''" ordered_store "''m1''" "decimal 999 2"]
  have c: "cart (example_checkout DineIn []) = example_cart"
    by (simp add: example_checkout_def open_checkout_def)
  have l: "length example_cart = 2" "(0::nat) < 2"
    "price (example_cart ! 0) = decimal 899 2" "quantity (example_cart ! 0) = 2"
    by (simp_all add: example_cart_def)
  from t constraints_example place_example
  have r: "length (select_ordered_items ordered_store (Some ''u1'') ''o1'') = length example_cart
     \<and> (\<forall>k<length example_cart.
           menu_id (select_ordered_items ordered_store (Some ''u1'') ''o1'' ! k)
             = Some (id' (example_cart ! k))
           \<and> item_quantity (select_ordered_items ordered_store (Some ''u1'') ''o1'' ! k)
             = quantity (example_cart ! k)
           \<and> price_each (select_ordered_items ordered_store (Some ''u1'') ''o1'' ! k)
             = price (example_cart ! k))
     \<and> select_ordered_items (set_menu_price ''m1'' (decimal 999 2) ordered_store) (Some ''u1'') ''o1''
         = select_ordered_items ordered_store (Some ''u1'') ''o1''"
    unfolding c by blast
  with l constraints_example place_example show ?thesis by simp
qed

section \<open>Properties of the order lifecycle\<close>

lemma after_update_orders:
  "orders (after st (update_orders st uid filt patch)) = orders st
   \<or> orders (after st (update_orders st uid filt patch))
       = map (\<lambda>r. if filt r \<and> orders_select_using st uid r \<and> orders_update_using st uid r
                    then patch r else r) (orders st)"
  by (simp add: after_def update_orders_def Let_def)

lemma delete_orders_none: "delete_orders st uid filt = st"
  by (simp add: delete_orders_def orders_delete_using_def split: option.splits)

lemma after_update_ordered_items: "after st (update_ordered_items st uid filt patch) = st"
  by (simp add: after_def update_ordered_items_def items_update_using_def)

lemma delete_ordered_items_none: "delete_ordered_items st uid filt = st"
  by (simp add: delete_ordered_items_def items_delete_using_def)

lemma owner_inserts_items:
  assumes r: "r \<in> set (orders st)" and u: "user_id r = Some u"
    and its: "list_all (\<lambda>i. order_id i = Some (row_id r) \<and> 0 < item_quantity i
                \<and> references (menu_id i) (map id' (menu st))) items"
  shows "insert_ordered_items st (Some u) items
           = Inr (st\<lparr>ordered_items := ordered_items st @ items\<rparr>)"
proof -
  have c: "list_all (items_insert_check st (Some u)) items"
    unfolding list_all_iff items_insert_check_def
  proof
    fix i assume "i \<in> set items"
    with its have "order_id i = Some (row_id r)" by (simp add: list_all_iff)
    with r u show "\<exists>x\<in>set (orders st). Some (row_id x) = order_id i \<and> Some u \<noteq> None
        \<and> user_id x = Some u"
      by (intro bexI[of _ r]) simp_all
  qed
  have q: "list_all (\<lambda>i. 0 < item_quantity i) items"
    using its by (simp add: list_all_iff)
  have f: "list_all (item_fk_ok st) items"
    unfolding list_all_iff item_fk_ok_def
  proof
    fix i assume i: "i \<in> set items"
    with its have "order_id i = Some (row_id r)" "references (menu_id i) (map id' (menu st))"
      by (simp_all add: list_all_iff)
    with r show "references (order_id i) (map row_id (orders st))
        \<and> references (menu_id i) (map id' (menu st))"
      by (simp add: references_def)
  qed
  from c q f show ?thesis by (simp add: insert_ordered_items_def)
qed

text \<open>
  Claim C5, as the code has it. For an order whose status is anything but pending, and a
  user who is not staff of the order's branch, that is, who acts as a customer: whatever
  UPDATE the user sends on \<open>orders\<close>, with any WHERE and any SET clause, the order row is
  afterwards what it was, and so is the number of rows; whatever DELETE the user sends on
  \<open>orders\<close> leaves the whole store as it was. The lines an order already has can be
  neither changed nor removed, by anyone. Adding lines is another matter: the owner of an
  order may insert lines for it whatever its status, as long as the rows meet the
  constraints of the table.
\<close>

theorem customer_change_rejected:
  "(i < length (orders st) \<and> status (orders st ! i) \<noteq> Some Pending
      \<and> \<not> staff_of_branch st uid (branch_id (orders st ! i)) \<longrightarrow>
    length (orders (after st (update_orders st uid filt patch))) = length (orders st)
    \<and> orders (after st (update_orders st uid filt patch)) ! i = orders st ! i
    \<and> delete_orders st uid filt' = st)
   \<and> after st (update_ordered_items st uid ifilt ipatch) = st
   \<and> delete_ordered_items st uid ifilt' = st
   \<and> (r \<in> set (orders st) \<and> user_id r = Some u
        \<and> list_all (\<lambda>i. order_id i = Some (row_id r) \<and> 0 < item_quantity i
              \<and> references (menu_id i) (map id' (menu st))) items \<longrightarrow>
      insert_ordered_items st (Some u) items
        = Inr (st\<lparr>ordered_items := ordered_items st @ items\<rparr>))"
proof (intro conjI impI)
  assume a: "i < length (orders st) \<and> status (orders st ! i) \<noteq> Some Pending
     \<and> \<not> staff_of_branch st uid (branch_id (orders st ! i))"
  then have n: "\<not> orders_update_using st uid (orders st ! i)"
    by (simp add: orders_update_using_def)
  from after_update_orders[of st uid filt patch] a n
  show "length (orders (after st (update_orders st uid filt patch))) = length (orders st)"
    and "orders (after st (update_orders st uid filt patch)) ! i = orders st ! i"
    by auto
  show "delete_orders st uid filt' = st" by (rule delete_orders_none)
next
  show "after st (update_ordered_items st uid ifilt ipatch) = st"
    by (rule after_update_ordered_items)
  show "delete_ordered_items st uid ifilt' = st" by (rule delete_ordered_items_none)
next
  assume "r \<in> set (orders st) \<and> user_id r = Some u
        \<and> list_all (\<lambda>i. order_id i = Some (row_id r) \<and> 0 < item_quantity i
              \<and> references (menu_id i) (map id' (menu st))) items"
  then show "insert_ordered_items st (Some u) items
        = Inr (st\<lparr>ordered_items := ordered_items st @ items\<rparr>)"
    using owner_inserts_items by blast
qed

lemma example_order_fields:
  "row_id example_order = ''o1''" "user_id example_order = Some ''u1''"
  "branch_id example_order = Some ''b1''" "order_type example_order = DineIn"
  "status example_order = Some Pending"
  by (simp_all add: example_order_def new_order_def example_checkout_def open_checkout_def)

lemma preparing_orders: "orders preparing_store = [example_order\<lparr>status := Some Preparing\<rparr>]"
  by (simp add: preparing_store_def)

lemma preparing_items: "ordered_items preparing_store = orderItems example_cart ''o1''"
  by (simp add: preparing_store_def ordered_store_def)

text \<open>
  The customer \<open>u1\<close> tries to cancel the order of the example once it is being prepared,
  and then adds a line to it.
\<close>

theorem customer_change_rejected_witness:
  "(0::nat) < length (orders preparing_store)
   \<and> status (orders preparing_store ! 0) \<noteq> Some Pending
   \<and> \<not> staff_of_branch preparing_store (Some ''u1'') (branch_id (orders preparing_store ! 0))
   \<and> orders (after preparing_store
        (update_orders preparing_store (Some ''u1'') (\<lambda>r. row_id r = ''o1'')
           (\<lambda>r. r\<lparr>status := Some Cancelled\<rparr>))) ! 0
       = example_order\<lparr>status := Some Preparing\<rparr>
   \<and> orders preparing_store ! 0 \<in> set (orders preparing_store)
   \<and> user_id (orders preparing_store ! 0) = Some ''u1''
   \<and> list_all (\<lambda>i. order_id i = Some (row_id (orders preparing_store ! 0)) \<and> 0 < item_quantity i
         \<and> references (menu_id i) (map id' (menu preparing_store))) [extra_line]
   \<and> insert_ordered_items preparing_store (Some ''u1'') [extra_line]
       = Inr (preparing_store\<lparr>ordered_items := ordered_items preparing_store @ [extra_line]\<rparr>)"
proof -
  let ?r = "orders preparing_store ! 0"
  have a: "(0::nat) < length (orders preparing_store)"
    "status ?r \<noteq> Some Pending"
    by (simp_all add: preparing_orders)
  have b: "\<not> staff_of_branch preparing_store (Some ''u1'') (branch_id ?r)"
    by (simp add: staff_of_branch_def preparing_store_def ordered_store_def example_store_def)
  have c: "?r \<in> set (orders preparing_store)" "user_id ?r = Some ''u1''"
    by (simp_all add: preparing_orders example_order_fields)
  have m: "map id' (menu preparing_store) = [''m1'', ''m2'']"
    by (simp add: preparing_store_def ordered_store_def example_store_def spring_rolls_def
        chicken_wings_def)
  have d: "list_all (\<lambda>i. order_id i = Some (row_id ?r) \<and> 0 < item_quantity i
         \<and> references (menu_id i) (map id' (menu preparing_store))) [extra_line]"
    unfolding m by (simp add: preparing_orders example_order_fields extra_line_def references_def)
  note t = customer_change_rejected[of 0 preparing_store "Some ''u1''" "\<lambda>r. row_id r = ''o1''"
      "\<lambda>r. r\<lparr>status := Some Cancelled\<rparr>" "\<lambda>r. True" "\<lambda>i. True" "\<lambda>i. i" "\<lambda>i. True"
      ?r "''u1''" "[extra_line]"]
  from t a b have u: "orders (after preparing_store
        (update_orders preparing_store (Some ''u1'') (\<lambda>r. row_id r = ''o1'')
           (\<lambda>r. r\<lparr>status := Some Cancelled\<rparr>))) ! 0 = ?r"
    by blast
  from t c d have v: "insert_ordered_items preparing_store (Some ''u1'') [extra_line]
       = Inr (preparing_store\<lparr>ordered_items := ordered_items preparing_store @ [extra_line]\<rparr>)"
    by blast
  from u have u': "orders (after preparing_store
        (update_orders preparing_store (Some ''u1'') (\<lambda>r. row_id r = ''o1'')
           (\<lambda>r. r\<lparr>status := Some Cancelled\<rparr>))) ! 0 = example_order\<lparr>status := Some Preparing\<rparr>"
    by (simp add: preparing_orders)
  from a b u' c d v show ?thesis by blast
qed

lemma insert_extra_line:
  "insert_ordered_items preparing_store (Some ''u1'') [extra_line]
     = Inr (preparing_store\<lparr>ordered_items := orderItems example_cart ''o1'' @ [extra_line]\<rparr>)"
  by (simp add: insert_ordered_items_def items_insert_check_def item_fk_ok_def references_def
      extra_line_def preparing_orders preparing_items example_order_fields)
    (simp add: preparing_store_def ordered_store_def example_store_def spring_rolls_def
      chicken_wings_def)

text \<open>
  Claim C5 as stated fails: the order of the example is being prepared, and its owner
  \<open>u1\<close>, who is not staff, adds a third line to it.
\<close>

theorem line_added_to_preparing_order:
  "orders preparing_store = [example_order\<lparr>status := Some Preparing\<rparr>]
   \<and> user_id (example_order\<lparr>status := Some Preparing\<rparr>) = Some ''u1''
   \<and> \<not> staff_of_branch preparing_store (Some ''u1'')
         (branch_id (example_order\<lparr>status := Some Preparing\<rparr>))
   \<and> length (select_ordered_items preparing_store (Some ''u1'') ''o1'') = 2
   \<and> insert_ordered_items preparing_store (Some ''u1'') [extra_line]
       = Inr (preparing_store\<lparr>ordered_items := orderItems example_cart ''o1'' @ [extra_line]\<rparr>)
   \<and> select_ordered_items
        (preparing_store\<lparr>ordered_items := orderItems example_cart ''o1'' @ [extra_line]\<rparr>)
        (Some ''u1'') ''o1''
       = orderItems example_cart ''o1'' @ [extra_line]"
proof -
  have s: "\<not> staff_of_branch preparing_store (Some ''u1'')
         (branch_id (example_order\<lparr>status := Some Preparing\<rparr>))"
    by (simp add: staff_of_branch_def preparing_store_def ordered_store_def example_store_def)
  have l: "length (select_ordered_items preparing_store (Some ''u1'') ''o1'') = 2"
    by (simp add: select_ordered_items_def items_select_using_def preparing_orders preparing_items
        example_order_fields orderItems_def example_cart_def)
  have r: "select_ordered_items
        (preparing_store\<lparr>ordered_items := orderItems example_cart ''o1'' @ [extra_line]\<rparr>)
        (Some ''u1'') ''o1''
       = orderItems example_cart ''o1'' @ [extra_line]"
    by (simp add: select_ordered_items_def items_select_using_def preparing_orders
        example_order_fields orderItems_def example_cart_def extra_line_def)
  from preparing_orders s l insert_extra_line r show ?thesis
    by (simp add: example_order_fields)
qed

lemma update_status_by_staff:
  assumes ok: "constraints_ok st" and r: "r \<in> set (orders st)"
    and staff: "staff_of_branch st uid (branch_id r)"
  shows "update_orders st uid (\<lambda>x. row_id x = row_id r) (\<lambda>x. x\<lparr>status := Some s\<rparr>)
     = Inr (st\<lparr>orders := map (\<lambda>x. if row_id x = row_id r then x\<lparr>status := Some s\<rparr> else x)
                             (orders st)\<rparr>)"
proof -
  let ?hit = "\<lambda>x. row_id x = row_id r \<and> orders_select_using st uid x \<and> orders_update_using st uid x"
  let ?p = "\<lambda>x. x\<lparr>status := Some s\<rparr>"
  from ok have d: "distinct (map row_id (orders st))"
    and fo: "list_all (order_fk_ok st) (orders st)"
    and fi: "list_all (item_fk_ok st) (ordered_items st)"
    by (simp_all add: constraints_ok_def)
  from d have inj: "inj_on row_id (set (orders st))" by (simp add: distinct_map)
  have same: "x = r" if "x \<in> set (orders st)" "row_id x = row_id r" for x
    using inj that r by (auto dest: inj_onD)
  have hit: "?hit x \<longleftrightarrow> row_id x = row_id r" if "x \<in> set (orders st)" for x
    using same[OF that] staff by (auto simp: orders_select_using_def orders_update_using_def)
  have m: "map (\<lambda>x. if ?hit x then ?p x else x) (orders st)
         = map (\<lambda>x. if row_id x = row_id r then ?p x else x) (orders st)"
    by (rule map_cong) (simp_all add: hit)
  let ?st' = "st\<lparr>orders := map (\<lambda>x. if row_id x = row_id r then ?p x else x) (orders st)\<rparr>"
  have chk: "list_all (\<lambda>x. \<not> ?hit x \<or> orders_update_check st uid (?p x)) (orders st)"
    unfolding list_all_iff
  proof
    fix x assume x: "x \<in> set (orders st)"
    show "\<not> ?hit x \<or> orders_update_check st uid (?p x)"
    proof (cases "?hit x")
      case True
      with same[OF x] staff show ?thesis
        by (simp add: orders_update_check_def orders_update_using_def)
    qed simp
  qed
  have ids: "map row_id (orders ?st') = map row_id (orders st)"
    by (simp add: comp_def if_distrib cong: if_cong)
  have fo': "list_all (order_fk_ok ?st') (orders ?st')"
    using fo by (auto simp: list_all_iff order_fk_ok_def)
  have fi': "list_all (item_fk_ok ?st') (ordered_items ?st')"
    using fi unfolding list_all_iff item_fk_ok_def ids by simp
  have d': "distinct (map row_id (orders ?st'))"
    by (simp only: ids d)
  show ?thesis
    unfolding update_orders_def Let_def m
    using chk d' fo' fi' by simp
qed

text \<open>
  Claim C4, as the code has it. The selector of the staff page offers \<open>in_delivery\<close> for
  an order exactly when its order type is delivery, so that page never asks for it on
  another order. Nothing else stands in the way: for a member of staff of the order's
  branch, \<open>updateOrderStatus\<close> stores whatever status it is given, whatever the order type.
\<close>

theorem status_selector_gate:
  "(InDelivery \<in> set (status_options r) \<longleftrightarrow> order_type r = Delivery)
   \<and> (constraints_ok st \<and> r \<in> set (orders st) \<and> staff_of_branch st uid (branch_id r) \<longrightarrow>
        updateOrderStatus st uid (row_id r) s
          = (ToastStatusUpdated,
             st\<lparr>orders := map (\<lambda>x. if row_id x = row_id r then x\<lparr>status := Some s\<rparr> else x)
                              (orders st)\<rparr>))"
proof (intro conjI impI)
  show "InDelivery \<in> set (status_options r) \<longleftrightarrow> order_type r = Delivery"
    by (simp add: status_options_def)
next
  assume "constraints_ok st \<and> r \<in> set (orders st) \<and> staff_of_branch st uid (branch_id r)"
  then have "update_orders st uid (\<lambda>x. row_id x = row_id r) (\<lambda>x. x\<lparr>status := Some s\<rparr>)
     = Inr (st\<lparr>orders := map (\<lambda>x. if row_id x = row_id r then x\<lparr>status := Some s\<rparr> else x)
                             (orders st)\<rparr>)"
    using update_status_by_staff by blast
  then show "updateOrderStatus st uid (row_id r) s
          = (ToastStatusUpdated,
             st\<lparr>orders := map (\<lambda>x. if row_id x = row_id r then x\<lparr>status := Some s\<rparr> else x)
                              (orders st)\<rparr>)"
    by (simp add: updateOrderStatus_def)
qed

lemma constraints_ordered: "constraints_ok ordered_store"
  by (simp add: constraints_ok_def ordered_store_def example_store_def example_order_fields
      order_fk_ok_def item_fk_ok_def references_def orderItems_def example_cart_def
      spring_rolls_def chicken_wings_def)

lemma staff_ordered: "staff_of_branch ordered_store (Some ''u2'') (branch_id example_order)"
  by (simp add: staff_of_branch_def ordered_store_def example_store_def example_order_fields)

text \<open>The member of staff \<open>u2\<close> marks the order of the example as ready.\<close>

theorem status_selector_gate_witness:
  "constraints_ok ordered_store \<and> example_order \<in> set (orders ordered_store)
   \<and> staff_of_branch ordered_store (Some ''u2'') (branch_id example_order)
   \<and> InDelivery \<notin> set (status_options example_order)
   \<and> updateOrderStatus ordered_store (Some ''u2'') ''o1'' Ready
       = (ToastStatusUpdated, ordered_store\<lparr>orders := [example_order\<lparr>status := Some Ready\<rparr>]\<rparr>)"
proof -
  have m: "example_order \<in> set (orders ordered_store)" by (simp add: ordered_store_def)
  note t = status_selector_gate[of example_order ordered_store "Some ''u2''" Ready]
  from t have g: "InDelivery \<notin> set (status_options example_order)"
    by (simp add: example_order_fields)
  from t constraints_ordered m staff_ordered
  have "updateOrderStatus ordered_store (Some ''u2'') (row_id example_order) Ready
      = (ToastStatusUpdated,
         ordered_store\<lparr>orders := map (\<lambda>x. if row_id x = row_id example_order
                                          then x\<lparr>status := Some Ready\<rparr> else x)
                                     (orders ordered_store)\<rparr>)"
    by blast
  then have "updateOrderStatus ordered_store (Some ''u2'') ''o1'' Ready
       = (ToastStatusUpdated, ordered_store\<lparr>orders := [example_order\<lparr>status := Some Ready\<rparr>]\<rparr>)"
    by (simp add: example_order_fields ordered_store_def)
  with constraints_ordered m staff_ordered g show ?thesis by simp
qed

text \<open>
  Claim C4 as stated fails: the order of the example is to dine in, and the request of the
  member of staff \<open>u2\<close> to set it to \<open>in_delivery\<close> is carried out.
\<close>

theorem in_delivery_on_dine_in_order:
  "orders ordered_store = [example_order]
   \<and> order_type example_order = DineIn
   \<and> fst (updateOrderStatus ordered_store (Some ''u2'') ''o1'' InDelivery) = ToastStatusUpdated
   \<and> orders (snd (updateOrderStatus ordered_store (Some ''u2'') ''o1'' InDelivery))
       = [example_order\<lparr>status := Some InDelivery\<rparr>]
   \<and> order_type (example_order\<lparr>status := Some InDelivery\<rparr>) = DineIn"
proof -
  have "update_orders ordered_store (Some ''u2'') (\<lambda>x. row_id x = row_id example_order)
          (\<lambda>x. x\<lparr>status := Some InDelivery\<rparr>)
     = Inr (ordered_store\<lparr>orders := map (\<lambda>x. if row_id x = row_id example_order
                                          then x\<lparr>status := Some InDelivery\<rparr> else x)
                                     (orders ordered_store)\<rparr>)"
    using constraints_ordered _ staff_ordered by (rule update_status_by_staff)
      (simp add: ordered_store_def)
  then have "updateOrderStatus ordered_store (Some ''u2'') ''o1'' InDelivery
       = (ToastStatusUpdated, ordered_store\<lparr>orders := [example_order\<lparr>status := Some InDelivery\<rparr>]\<rparr>)"
    by (simp add: updateOrderStatus_def example_order_fields ordered_store_def)
  then show ?thesis by (simp add: example_order_fields) (simp add: ordered_store_def)
qed

end
